theory Spec2Isabelle
  imports Main
begin

section \<open>JavaScript values\<close>

text \<open>
  The adapter layer handles open JSON-like values. A number is modelled by an integer
  (fractions, NaN and the infinities are not represented), a Date by its time stamp, and
  an object by the list of its own enumerable properties in enumeration order. Inherited
  properties, the \<open>length\<close> of an array and the rule that integer-like names are
  enumerated first are not modelled.
\<close>

datatype jsval =
    JUndefined
  | JNull
  | JBool bool
  | JNum int
  | JStr string
  | JDate int
  | JArr "jsval list"
  | JObj "(string \<times> jsval) list"

type_synonym object = "(string \<times> jsval) list"

text \<open>\<open>o[k]\<close>: the value of a property, \<open>undefined\<close> when the object has none.\<close>

fun get :: "object \<Rightarrow> string \<Rightarrow> jsval" where
  "get [] k = JUndefined"
| "get ((k', v) # kvs) k = (if k' = k then v else get kvs k)"

text \<open>\<open>o.hasOwnProperty(k)\<close>.\<close>

definition has :: "object \<Rightarrow> string \<Rightarrow> bool" where
  "has kvs k = (k \<in> set (map fst kvs))"

text \<open>
  \<open>o[k] = v\<close>: an existing property keeps its place in the enumeration order, a new
  one is added at the end.
\<close>

fun put :: "object \<Rightarrow> string \<Rightarrow> jsval \<Rightarrow> object" where
  "put [] k v = [(k, v)]"
| "put ((k', v') # kvs) k v = (if k' = k then (k, v) # kvs else (k', v') # put kvs k v)"

text \<open>Decimal notation of an array index, the property name under which an element is found.\<close>

definition digit :: "nat \<Rightarrow> char" where
  "digit d = char_of (48 + d)"

fun digits :: "nat \<Rightarrow> nat \<Rightarrow> string" where
  "digits 0 n = []"
| "digits (Suc fuel) n = (if n < 10 then [digit n] else digits fuel (n div 10) @ [digit (n mod 10)])"

definition index_key :: "nat \<Rightarrow> string" where
  "index_key n = digits (Suc n) n"

text \<open>\<open>_.isObject\<close>: true of every value of object type, arrays and dates included.\<close>

fun isObject :: "jsval \<Rightarrow> bool" where
  "isObject (JObj kvs) = True"
| "isObject (JArr xs) = True"
| "isObject (JDate t) = True"
| "isObject v = False"

text \<open>
  \<open>_.toPairs\<close> and \<open>_.keys\<close>, and the (property name, value) pairs that
  \<open>_.mapValues\<close> and \<open>_.mapKeys\<close> visit: the own enumerable properties. An array has
  its elements under their indices, a string its characters, a date and the other scalars
  have none.
\<close>

fun toPairs :: "jsval \<Rightarrow> object" where
  "toPairs (JObj kvs) = kvs"
| "toPairs (JArr xs) = zip (map index_key [0..<length xs]) xs"
| "toPairs (JStr s) = zip (map index_key [0..<length s]) (map (\<lambda>c. JStr [c]) s)"
| "toPairs v = []"

section \<open>Matcher\<close>

text \<open>
  \<open>OPERATORS\<close> is imported from \<open>adapter-utils\<close>, which is not among the sources; the
  operator table is a parameter \<open>ops\<close>: \<open>ops name\<close> is the result of the lookup
  \<open>OPERATORS[name]\<close>, \<open>None\<close> when the lookup gives nothing.
\<close>

type_synonym operators = "string \<Rightarrow> (jsval \<Rightarrow> jsval \<Rightarrow> bool) option"

text \<open>
  The (name, value) pairs that \<open>_.every\<close> visits. A collection that is array-like, that
  is whose \<open>length\<close> is a non-negative integer up to \<open>Number.MAX_SAFE_INTEGER\<close>, is
  visited by index from \<open>0\<close> to \<open>length - 1\<close>, whatever other properties it has; any
  other object is visited by its own enumerable properties.
\<close>

fun isLength :: "jsval \<Rightarrow> bool" where
  "isLength (JNum n) = (0 \<le> n \<and> n \<le> 9007199254740991)"
| "isLength v = False"

fun toLength :: "jsval \<Rightarrow> nat" where
  "toLength (JNum n) = nat n"
| "toLength v = 0"

fun everyPairs :: "jsval \<Rightarrow> object" where
  "everyPairs (JObj kvs) =
     (if isLength (get kvs ''length'')
      then map (\<lambda>i. (index_key i, get kvs (index_key i))) [0..<toLength (get kvs ''length'')]
      else kvs)"
| "everyPairs (JArr xs) = zip (map index_key [0..<length xs]) xs"
| "everyPairs (JStr s) = zip (map index_key [0..<length s]) (map (\<lambda>c. JStr [c]) s)"
| "everyPairs v = []"

text \<open>The inner \<open>_.every(desc, (val, operationName) => ...)\<close> of \<open>Adapter.matchEntity\<close>.\<close>

definition matchOperation :: "operators \<Rightarrow> jsval \<Rightarrow> string \<times> jsval \<Rightarrow> bool" where
  "matchOperation ops entityVal p =
     (case ops (fst p) of
        Some operationFunction \<Rightarrow> operationFunction entityVal (snd p)
      | None \<Rightarrow> False)"

definition matchField :: "operators \<Rightarrow> object \<Rightarrow> string \<times> jsval \<Rightarrow> bool" where
  "matchField ops entity p =
     (if isObject (snd p)
      then list_all (matchOperation ops (get entity (fst p))) (everyPairs (snd p))
      else False)"

text \<open>\<open>Adapter.matchEntity(query, entity)\<close>.\<close>

definition matchEntity :: "operators \<Rightarrow> jsval \<Rightarrow> object \<Rightarrow> bool" where
  "matchEntity ops query entity = list_all (matchField ops entity) (toPairs query)"

text \<open>
  The matcher in the words of the specification, for comparison: every field of the query
  has an operator mapping as descriptor, and the record's value at the field satisfies
  every operator predicate of the mapping; a name outside the operator table is not
  satisfied.
\<close>

fun isOperatorMapping :: "jsval \<Rightarrow> bool" where
  "isOperatorMapping (JObj kvs) = True"
| "isOperatorMapping v = False"

definition matches_spec :: "operators \<Rightarrow> jsval \<Rightarrow> object \<Rightarrow> bool" where
  "matches_spec ops query entity =
     list_all (\<lambda>p. isOperatorMapping (snd p) \<and>
        list_all (\<lambda>e. case ops (fst e) of Some f \<Rightarrow> f (get entity (fst p)) (snd e) | None \<Rightarrow> False)
          (toPairs (snd p))) (toPairs query)"

text \<open>
  A descriptor that \<open>_.every\<close> visits property by property or that is no object at all:
  neither an array, nor a date, nor an object with an array-like \<open>length\<close>.
\<close>

fun plainDescriptor :: "jsval \<Rightarrow> bool" where
  "plainDescriptor (JObj kvs) = (\<not> isLength (get kvs ''length''))"
| "plainDescriptor (JArr xs) = False"
| "plainDescriptor (JDate t) = False"
| "plainDescriptor v = True"

text \<open>
  Modelled from the spec: \<open>adapter-utils\<close>, which defines \<open>OPERATORS\<close>, is not among the
  sources. Section 4.1 of the specification names eleven canonical operators: equal,
  not equal, the four comparisons, in set, not in set, exists, not exists and regular
  expression match. The comparisons are between numbers and dates, as section 4.2 asks of
  their operands. \<open>$exists\<close> and \<open>$notExists\<close> look only at whether the record has a value,
  \<open>undefined\<close> counting as none, and compare that with the operand, as the absence check
  \<open>{ $exists: false }\<close> of section 4.2 needs. The regular expression engine of the host
  is the parameter \<open>regexTest pattern text\<close>.
\<close>

fun numericValue :: "jsval \<Rightarrow> int option" where
  "numericValue (JNum n) = Some n"
| "numericValue (JDate t) = Some t"
| "numericValue v = None"

definition compareNum :: "(int \<Rightarrow> int \<Rightarrow> bool) \<Rightarrow> jsval \<Rightarrow> jsval \<Rightarrow> bool" where
  "compareNum r entityVal targetVal =
     (case (numericValue entityVal, numericValue targetVal) of
        (Some a, Some b) \<Rightarrow> r a b
      | other \<Rightarrow> False)"

fun inSet :: "jsval \<Rightarrow> jsval \<Rightarrow> bool" where
  "inSet entityVal (JArr xs) = (entityVal \<in> set xs)"
| "inSet entityVal targetVal = False"

fun notInSet :: "jsval \<Rightarrow> jsval \<Rightarrow> bool" where
  "notInSet entityVal (JArr xs) = (entityVal \<notin> set xs)"
| "notInSet entityVal targetVal = False"

fun regexMatch :: "(string \<Rightarrow> string \<Rightarrow> bool) \<Rightarrow> jsval \<Rightarrow> jsval \<Rightarrow> bool" where
  "regexMatch regexTest (JStr text) (JStr pattern) = regexTest pattern text"
| "regexMatch regexTest entityVal targetVal = False"

fun isTrue :: "jsval \<Rightarrow> bool" where
  "isTrue (JBool b) = b"
| "isTrue v = False"

definition OPERATORS :: "(string \<Rightarrow> string \<Rightarrow> bool) \<Rightarrow> operators" where
  "OPERATORS regexTest name =
     (if name = ''$equal'' then Some (\<lambda>entityVal targetVal. entityVal = targetVal)
      else if name = ''$diff'' then Some (\<lambda>entityVal targetVal. entityVal \<noteq> targetVal)
      else if name = ''$less'' then Some (compareNum (<))
      else if name = ''$lessEqual'' then Some (compareNum (\<le>))
      else if name = ''$greater'' then Some (compareNum (>))
      else if name = ''$greaterEqual'' then Some (compareNum (\<ge>))
      else if name = ''$in'' then Some inSet
      else if name = ''$notIn'' then Some notInSet
      else if name = ''$exists'' then
        Some (\<lambda>entityVal targetVal. isTrue targetVal = (entityVal \<noteq> JUndefined))
      else if name = ''$notExists'' then
        Some (\<lambda>entityVal targetVal. isTrue targetVal = (entityVal = JUndefined))
      else if name = ''$regex'' then Some (regexMatch regexTest)
      else None)"

text \<open>
  A stand-in for the engine at concrete inputs that use no regular expression: a pattern
  of plain characters, optionally anchored by \<open>^\<close> at its start, found in the text.
\<close>

fun plainTest :: "string \<Rightarrow> string \<Rightarrow> bool" where
  "plainTest [] text = True"
| "plainTest (c # cs) text =
     (if c = CHR ''^'' then take (length cs) text = cs
      else list_ex (\<lambda>i. take (Suc (length cs)) (drop i text) = c # cs) [0..<Suc (length text)])"

section \<open>Errors\<close>

text \<open>
  Every \<open>throw\<close> of the modelled code is a value. The message of an error is kept as
  the data the source builds it from.
\<close>

datatype error =
    Conflict string string
      \<comment> \<open>\<open>Error\<close>: Search can't have both "alias" and "canonical" keys, as they are synonyms\<close>
  | NotNumeric string jsval
      \<comment> \<open>\<open>TypeError\<close>: Expect "operation" in \<open>JSON.stringify(attrSearch)\<close> to be a numeric value\<close>
  | AdapterExists string
      \<comment> \<open>\<open>Error\<close>: Adapter with label "label" already exists.\<close>
  | NameUsed jsval
      \<comment> \<open>\<open>Error\<close>: DataSource name already used, had "sourceName"\<close>
  | NonEmptyStr string jsval
      \<comment> \<open>\<open>Error\<close>: classname name must be a non empty string, had "value"\<close>
  | CouldNotLoad string
      \<comment> \<open>\<open>Error\<close>: Could not load adapter "label"\<close>
  | NativeTypeError
      \<comment> \<open>the \<open>TypeError\<close> of the language: a property of \<open>null\<close> or \<open>undefined\<close> is read,
          or a value that is no constructor is called with \<open>new\<close>\<close>
  | Thrown jsval
      \<comment> \<open>an error of a collaborator that is not among the sources\<close>

section \<open>Query normalizer\<close>

text \<open>
  \<open>CANONICAL_OPERATORS\<close> is imported from \<open>adapter-utils\<close>, which is not among the
  sources; the table of aliases is a parameter \<open>canon\<close>: \<open>canon operator\<close> is
  \<open>Some\<close> of the canonical name when \<open>CANONICAL_OPERATORS.hasOwnProperty(operator)\<close>.
\<close>

type_synonym aliases = "string \<Rightarrow> string option"

fun isString :: "jsval \<Rightarrow> bool" where
  "isString (JStr s) = True"
| "isString v = False"

fun isNumber :: "jsval \<Rightarrow> bool" where
  "isNumber (JNum n) = True"
| "isNumber v = False"

fun isDate :: "jsval \<Rightarrow> bool" where
  "isDate (JDate t) = True"
| "isDate v = False"

text \<open>\<open>v instanceof Object\<close>: mappings, arrays and dates are instances.\<close>

fun instanceofObject :: "jsval \<Rightarrow> bool" where
  "instanceofObject (JObj kvs) = True"
| "instanceofObject (JArr xs) = True"
| "instanceofObject (JDate t) = True"
| "instanceofObject v = False"

text \<open>
  The \<open>_.mapKeys\<close> of \<open>normalizeQuery\<close>: the properties of \<open>obj\<close> are visited in order;
  an alias whose canonical name is a property of \<open>obj\<close> throws, otherwise the value is
  assigned to the result under the canonical name.
\<close>

fun mapKeys :: "aliases \<Rightarrow> object \<Rightarrow> object \<Rightarrow> object \<Rightarrow> error + object" where
  "mapKeys canon obj [] result = Inr result"
| "mapKeys canon obj ((operator, val) # rest) result =
     (case canon operator of
        Some canonical \<Rightarrow>
          if has obj canonical then Inl (Conflict operator canonical)
          else mapKeys canon obj rest (put result canonical val)
      | None \<Rightarrow> mapKeys canon obj rest (put result operator val))"

text \<open>The \<open>_.forEach\<close> over the four arithmetic operators.\<close>

definition arithmeticOperators :: "string list" where
  "arithmeticOperators = [''$less'', ''$lessEqual'', ''$greater'', ''$greaterEqual'']"

fun checkArithmetic :: "string list \<Rightarrow> object \<Rightarrow> error + object" where
  "checkArithmetic [] attrSearch = Inr attrSearch"
| "checkArithmetic (operation # more) attrSearch =
     (if has attrSearch operation \<and>
         \<not> (isNumber (get attrSearch operation) \<or> isDate (get attrSearch operation))
      then Inl (NotNumeric operation (JObj attrSearch))
      else checkArithmetic more attrSearch)"

text \<open>The callback of \<open>mapValues\<close>: the normal form of the value of one field.\<close>

definition normalizeAttr :: "aliases \<Rightarrow> jsval \<Rightarrow> error + jsval" where
  "normalizeAttr canon attrSearch =
     (if attrSearch = JUndefined then Inr (JObj [(''$exists'', JBool False)])
      else if \<not> instanceofObject attrSearch then Inr (JObj [(''$equal'', attrSearch)])
      else (case mapKeys canon (toPairs attrSearch) (toPairs attrSearch) [] of
              Inl e \<Rightarrow> Inl e
            | Inr renamed \<Rightarrow>
                (case checkArithmetic arithmeticOperators renamed of
                   Inl e \<Rightarrow> Inl e
                 | Inr checked \<Rightarrow> Inr (JObj checked))))"

text \<open>
  \<open>_.mapValues\<close> with a callback that may throw: the fields are visited in order and the
  first error ends the traversal. The property names of an object are distinct, so the
  result has the fields of the argument in the same order.
\<close>

fun mapValues :: "(jsval \<Rightarrow> error + jsval) \<Rightarrow> object \<Rightarrow> error + object" where
  "mapValues f [] = Inr []"
| "mapValues f ((key, val) # rest) =
     (case f val of
        Inl e \<Rightarrow> Inl e
      | Inr val' \<Rightarrow> (case mapValues f rest of Inl e \<Rightarrow> Inl e | Inr rest' \<Rightarrow> Inr ((key, val') # rest')))"

text \<open>
  \<open>Adapter.normalizeQuery(originalQuery, options)\<close>. \<open>_.cloneDeep\<close> is the identity on
  values.
\<close>

definition normalizeQuery :: "aliases \<Rightarrow> jsval \<Rightarrow> object \<Rightarrow> error + jsval" where
  "normalizeQuery canon originalQuery options =
     (let originalQuery =
            (if isString originalQuery then JObj [(''id'', originalQuery)] else originalQuery)
      in if get options ''remapInput'' = JBool True
         then (case mapValues (normalizeAttr canon) (toPairs originalQuery) of
                 Inl e \<Rightarrow> Inl e
               | Inr normalizedQuery \<Rightarrow> Inr (JObj normalizedQuery))
         else Inr originalQuery)"

text \<open>
  Modelled from the spec: \<open>adapter-utils\<close>, which defines \<open>CANONICAL_OPERATORS\<close>, is not
  among the sources. Section 8 of the specification names \<open>$gt\<close> as an alias of the
  canonical \<open>$greater\<close>; the table below holds this alias and its three siblings, for use
  at concrete inputs.
\<close>

definition CANONICAL_OPERATORS :: aliases where
  "CANONICAL_OPERATORS operator =
     (if operator = ''$gt'' then Some ''$greater''
      else if operator = ''$gte'' then Some ''$greaterEqual''
      else if operator = ''$lt'' then Some ''$less''
      else if operator = ''$lte'' then Some ''$lessEqual''
      else None)"

text \<open>
  The canonical form of a query, in the words of the specification: a mapping from field
  names to operator mappings that are free of aliases and whose arithmetic operators have
  numbers or dates as operands. The operator names of a mapping are distinct, as the
  property names of any object.
\<close>

fun canonicalDescriptor :: "aliases \<Rightarrow> jsval \<Rightarrow> bool" where
  "canonicalDescriptor canon (JObj desc) =
     (distinct (map fst desc) \<and>
      list_all (\<lambda>p. canon (fst p) = None) desc \<and>
      list_all (\<lambda>operation. has desc operation \<longrightarrow>
          isNumber (get desc operation) \<or> isDate (get desc operation)) arithmeticOperators)"
| "canonicalDescriptor canon v = False"

fun canonicalQuery :: "aliases \<Rightarrow> jsval \<Rightarrow> bool" where
  "canonicalQuery canon (JObj attrs) = list_all (\<lambda>p. canonicalDescriptor canon (snd p)) attrs"
| "canonicalQuery canon v = False"

section \<open>Options normalizer\<close>

text \<open>
  \<open>QUERY_OPTIONS_TRANSFORMS\<close> is imported from \<open>adapter-utils\<close>, which is not among the
  sources; the table is a parameter: the list of its (option name, transform) properties.
  A transform receives the options object and changes it in place or throws; in the model
  it returns the changed object or the error.
\<close>

type_synonym transform = "object \<Rightarrow> error + object"

text \<open>
  The \<open>_.forEach\<close> of \<open>normalizeOptions\<close>: a transform runs when the options, as they
  are at that moment, have a property of its name.
\<close>

fun applyTransforms :: "(string \<times> transform) list \<Rightarrow> object \<Rightarrow> error + object" where
  "applyTransforms [] opts = Inr opts"
| "applyTransforms ((optionName, transform) # more) opts =
     (if has opts optionName
      then (case transform opts of
              Inl e \<Rightarrow> Inl e
            | Inr opts' \<Rightarrow> applyTransforms more opts')
      else applyTransforms more opts)"

text \<open>
  \<open>_.defaults(object, source)\<close>: a property of the source is assigned where the object
  has \<open>undefined\<close> under that name.
\<close>

fun defaults :: "object \<Rightarrow> object \<Rightarrow> object" where
  "defaults opts [] = opts"
| "defaults opts ((k, v) # source) =
     defaults (if get opts k = JUndefined then put opts k v else opts) source"

definition defaultOptions :: object where
  "defaultOptions = [(''skip'', JNum 0), (''remapInput'', JBool True), (''remapOutput'', JBool True)]"

text \<open>
  \<open>Adapter.normalizeOptions(opts = {})\<close>; a caller that omits the argument passes the
  empty object \<open>[]\<close>. \<open>_.cloneDeep\<close> is the identity on values: the result is a new
  object and the argument is not changed.
\<close>

definition normalizeOptions :: "(string \<times> transform) list \<Rightarrow> object \<Rightarrow> error + object" where
  "normalizeOptions transforms opts =
     (case applyTransforms transforms opts of
        Inl e \<Rightarrow> Inl e
      | Inr opts' \<Rightarrow> Inr (defaults opts' defaultOptions))"

text \<open>
  A transform that rewrites the option of its own name and nothing else:
  \<open>opts[optionName] = f(opts[optionName])\<close>, or the error that \<open>f\<close> throws. The
  idempotence of \<open>normalizeOptions\<close> is stated for tables of transforms of this shape.
\<close>

definition optionTransform :: "string \<Rightarrow> (jsval \<Rightarrow> error + jsval) \<Rightarrow> transform" where
  "optionTransform optionName f opts =
     (case f (get opts optionName) of
        Inl e \<Rightarrow> Inl e
      | Inr v \<Rightarrow> Inr (put opts optionName v))"

definition transformsOf :: "(string \<times> (jsval \<Rightarrow> error + jsval)) list \<Rightarrow> (string \<times> transform) list" where
  "transformsOf table = map (\<lambda>p. (fst p, optionTransform (fst p) (snd p))) table"

text \<open>
  Modelled from the spec: \<open>adapter-utils\<close>, which defines \<open>QUERY_OPTIONS_TRANSFORMS\<close>, is
  not among the sources. The specification asks for \<open>skip\<close> a non-negative integer and
  for \<open>limit\<close> a positive integer or unbounded; the table below accepts a number within
  these bounds and throws otherwise, for use at concrete inputs.
\<close>

fun atLeast :: "int \<Rightarrow> jsval \<Rightarrow> error + jsval" where
  "atLeast bound (JNum n) = (if bound \<le> n then Inr (JNum n) else Inl (Thrown (JNum n)))"
| "atLeast bound v = Inl (Thrown v)"

definition QUERY_OPTIONS_TRANSFORMS :: "(string \<times> (jsval \<Rightarrow> error + jsval)) list" where
  "QUERY_OPTIONS_TRANSFORMS = [(''limit'', atLeast 1), (''skip'', atLeast 0)]"

section \<open>Conversions of the language\<close>

text \<open>
  \<open>ToString\<close>, as a template literal and a property access apply it. The text of a date
  depends on the time zone of the host; the model writes a fixed stand-in for it.
\<close>

definition decimal :: "int \<Rightarrow> string" where
  "decimal n = (if n < 0 then CHR ''-'' # index_key (nat (- n)) else index_key (nat n))"

fun intersperse :: "string \<Rightarrow> string list \<Rightarrow> string" where
  "intersperse sep [] = []"
| "intersperse sep [s] = s"
| "intersperse sep (s # more) = s @ sep @ intersperse sep more"

fun toStr :: "jsval \<Rightarrow> string" where
  "toStr JUndefined = ''undefined''"
| "toStr JNull = ''null''"
| "toStr (JBool b) = (if b then ''true'' else ''false'')"
| "toStr (JNum n) = decimal n"
| "toStr (JStr s) = s"
| "toStr (JDate t) = ''[date]''"
| "toStr (JArr xs) =
     intersperse '','' (map (\<lambda>x. if x = JUndefined \<or> x = JNull then [] else toStr x) xs)"
| "toStr (JObj kvs) = ''[object Object]''"

text \<open>
  \<open>ToNumber\<close>, as a comparison with a number applies it; \<open>None\<close> is NaN. Of the numeric
  texts only the empty one and plain decimal integers are read.
\<close>

definition digitValue :: "char \<Rightarrow> nat option" where
  "digitValue c =
     (if (48 :: nat) \<le> of_char c \<and> (of_char c :: nat) \<le> 57 then Some (of_char c - 48) else None)"

fun parseDigits :: "nat \<Rightarrow> string \<Rightarrow> nat option" where
  "parseDigits acc [] = Some acc"
| "parseDigits acc (c # cs) =
     (case digitValue c of None \<Rightarrow> None | Some d \<Rightarrow> parseDigits (10 * acc + d) cs)"

fun parseNumber :: "string \<Rightarrow> int option" where
  "parseNumber [] = Some 0"
| "parseNumber (c # cs) =
     (if c = CHR ''-'' \<and> cs \<noteq> [] then map_option (\<lambda>n. - int n) (parseDigits 0 cs)
      else map_option int (parseDigits 0 (c # cs)))"

fun toNumber :: "jsval \<Rightarrow> int option" where
  "toNumber JUndefined = None"
| "toNumber JNull = Some 0"
| "toNumber (JBool b) = Some (if b then 1 else 0)"
| "toNumber (JNum n) = Some n"
| "toNumber (JStr s) = parseNumber s"
| "toNumber (JDate t) = Some t"
| "toNumber (JArr xs) = parseNumber (toStr (JArr xs))"
| "toNumber (JObj kvs) = None"

text \<open>\<open>n > v\<close> for a number \<open>n\<close>, and \<open>v > 0\<close>.\<close>

definition numberGreater :: "int \<Rightarrow> jsval \<Rightarrow> bool" where
  "numberGreater n v = (case toNumber v of None \<Rightarrow> False | Some m \<Rightarrow> m < n)"

definition greaterZero :: "jsval \<Rightarrow> bool" where
  "greaterZero v = (case toNumber v of None \<Rightarrow> False | Some m \<Rightarrow> 0 < m)"

text \<open>Truthiness, as \<open>||\<close> and \<open>!\<close> test it.\<close>

fun truthy :: "jsval \<Rightarrow> bool" where
  "truthy JUndefined = False"
| "truthy JNull = False"
| "truthy (JBool b) = b"
| "truthy (JNum n) = (n \<noteq> 0)"
| "truthy (JStr s) = (s \<noteq> [])"
| "truthy v = True"

text \<open>\<open>_.first\<close>: the first element, \<open>undefined\<close> (\<open>None\<close>) of an empty list.\<close>

fun first :: "'a list \<Rightarrow> 'a option" where
  "first [] = None"
| "first (x # xs) = Some x"

section \<open>Registry of adapters and data sources\<close>

text \<open>
  The registries of the \<open>Diaspora\<close> singleton. An adapter constructor receives the name of
  the source and returns the adapter or throws; the data access layer that wraps the
  adapter is not among the sources and a data source is modelled by its adapter.
\<close>

record 'a diaspora =
  adapters :: "string \<Rightarrow> (jsval \<Rightarrow> error + 'a) option"
  dataSources :: "string \<Rightarrow> 'a option"

text \<open>\<open>value.length\<close> of a value that is neither \<open>null\<close> nor \<open>undefined\<close>.\<close>

fun lengthOf :: "jsval \<Rightarrow> jsval" where
  "lengthOf (JStr s) = JNum (int (length s))"
| "lengthOf (JArr xs) = JNum (int (length xs))"
| "lengthOf (JObj kvs) = get kvs ''length''"
| "lengthOf v = JUndefined"

text \<open>
  \<open>Diaspora.requireName(classname, value)\<close>: the test is
  \<open>!_.isString(value) && value.length > 0\<close>; reading \<open>length\<close> of \<open>null\<close> or
  \<open>undefined\<close> throws the language's own \<open>TypeError\<close>.
\<close>

definition requireName :: "string \<Rightarrow> jsval \<Rightarrow> error + unit" where
  "requireName classname v =
     (if isString v then Inr ()
      else if v = JNull \<or> v = JUndefined then Inl NativeTypeError
      else if greaterZero (lengthOf v) then Inl (NonEmptyStr classname v)
      else Inr ())"

text \<open>
  \<open>Diaspora.createDataSource(adapterLabel, sourceName)\<close>. For a label that is not
  registered the module \<open>diaspora-label\<close> is required; \<open>loadModule\<close> gives the registry
  after the module has run, \<open>None\<close> when \<open>require\<close> throws.
\<close>

definition createDataSource ::
  "(string \<Rightarrow> 'a diaspora \<Rightarrow> 'a diaspora option) \<Rightarrow> 'a diaspora \<Rightarrow> string \<Rightarrow> jsval \<Rightarrow>
   (error + 'a) \<times> 'a diaspora" where
  "createDataSource loadModule d adapterLabel sourceName =
     (case (if adapters d adapterLabel \<noteq> None then Some d else loadModule adapterLabel d) of
        None \<Rightarrow> (Inl (CouldNotLoad adapterLabel), d)
      | Some d' \<Rightarrow>
          (case adapters d' adapterLabel of
             None \<Rightarrow> (Inl NativeTypeError, d')
           | Some adapterCtr \<Rightarrow>
               (adapterCtr (if truthy sourceName then sourceName else JStr adapterLabel), d')))"

text \<open>\<open>Diaspora.createNamedDataSource(sourceName, adapterLabel)\<close>.\<close>

definition createNamedDataSource ::
  "(string \<Rightarrow> 'a diaspora \<Rightarrow> 'a diaspora option) \<Rightarrow> 'a diaspora \<Rightarrow> jsval \<Rightarrow> string \<Rightarrow>
   (error + 'a) \<times> 'a diaspora" where
  "createNamedDataSource loadModule d sourceName adapterLabel =
     (case requireName ''DataSource'' sourceName of
        Inl e \<Rightarrow> (Inl e, d)
      | Inr u \<Rightarrow>
          (case createDataSource loadModule d adapterLabel sourceName of
             (Inl e, d') \<Rightarrow> (Inl e, d')
           | (Inr dataSource, d') \<Rightarrow>
               if dataSources d' (toStr sourceName) \<noteq> None then (Inl (NameUsed sourceName), d')
               else (Inr dataSource,
                     d'\<lparr>dataSources := (dataSources d')(toStr sourceName \<mapsto> dataSource)\<rparr>)))"

text \<open>\<open>Diaspora.registerAdapter(label, adapter)\<close>.\<close>

definition registerAdapter ::
  "'a diaspora \<Rightarrow> string \<Rightarrow> (jsval \<Rightarrow> error + 'a) \<Rightarrow> (error + unit) \<times> 'a diaspora" where
  "registerAdapter d label adapter =
     (if adapters d label \<noteq> None then (Inl (AdapterExists label), d)
      else (Inr (), d\<lparr>adapters := (adapters d)(label \<mapsto> adapter)\<rparr>))"

text \<open>
  The requirement in the words of the error message of \<open>requireName\<close>: the name must
  be a non empty string.
\<close>

fun nonEmptyString :: "jsval \<Rightarrow> bool" where
  "nonEmptyString (JStr s) = (s \<noteq> [])"
| "nonEmptyString v = False"

section \<open>Adapter life cycle\<close>

datatype EAdapterState = READY | ERROR | PREPARING

text \<open>
  A promise returned by \<open>waitReady\<close>. It resolves with the adapter itself, and is rejected
  with the value of \<open>this.error\<close>, which is \<open>undefined\<close> (\<open>None\<close>) until an error is
  stored. The adapter keeps its state, the stored error, the promises it has handed out
  and, as \<open>listeners\<close>, the promises whose \<open>resolve\<close> and \<open>reject\<close> are registered as
  handlers of the \<open>ready\<close> and \<open>error\<close> events.
\<close>

datatype promise = Pending | Resolved | Rejected "error option"

record adapter =
  state :: EAdapterState
  error :: "error option"
  promises :: "promise list"
  listeners :: "nat list"

text \<open>The constructor: \<open>this.error = undefined; this.state = EAdapterState.PREPARING\<close>.\<close>

definition newAdapter :: adapter where
  "newAdapter = \<lparr>state = PREPARING, error = None, promises = [], listeners = []\<rparr>"

text \<open>\<open>resolve\<close> and \<open>reject\<close> settle a pending promise and leave a settled one as it is.\<close>

fun settle :: "promise \<Rightarrow> promise \<Rightarrow> promise" where
  "settle outcome Pending = outcome"
| "settle outcome p = p"

fun notify :: "promise \<Rightarrow> nat list \<Rightarrow> promise list \<Rightarrow> promise list" where
  "notify outcome [] ps = ps"
| "notify outcome (i # waiting) ps = notify outcome waiting (ps[i := settle outcome (ps ! i)])"

text \<open>
  The \<open>ready\<close> event: the handler of the constructor sets the state, then the handlers
  of the waiting promises resolve them.
\<close>

definition emitReady :: "adapter \<Rightarrow> adapter" where
  "emitReady a = a\<lparr>state := READY, promises := notify Resolved (listeners a) (promises a)\<rparr>"

text \<open>
  The \<open>error\<close> event with the error \<open>err\<close>. The handler of the constructor sets the
  state and then calls \<open>Diaspora.logger.error\<close>. \<open>Diaspora\<close> is the class, and the class
  declares \<open>logger\<close> as a getter of its instances only, so \<open>Diaspora.logger\<close> is
  \<open>undefined\<close> and the call throws the \<open>TypeError\<close> of the language: the assignment
  \<open>this.error = err\<close> that follows is not reached, and the handlers registered after
  this one, those of the waiting promises, are not run. The event ends with the error
  thrown.
\<close>

definition emitError :: "error \<Rightarrow> adapter \<Rightarrow> (error + unit) \<times> adapter" where
  "emitError err a = (Inl NativeTypeError, a\<lparr>state := ERROR\<rparr>)"

text \<open>
  The \<open>error\<close> event as the handlers are meant to run, for comparison: the error is
  stored and the waiting promises are rejected with it.
\<close>

definition emitError_spec :: "error \<Rightarrow> adapter \<Rightarrow> adapter" where
  "emitError_spec err a =
     a\<lparr>state := ERROR, error := Some err,
       promises := notify (Rejected (Some err)) (listeners a) (promises a)\<rparr>"

text \<open>
  \<open>Adapter.waitReady()\<close>: the index of the new promise and the adapter after the call.
\<close>

definition waitReady :: "adapter \<Rightarrow> nat \<times> adapter" where
  "waitReady a =
     (let p = length (promises a) in
      if state a = READY then (p, a\<lparr>promises := promises a @ [Resolved]\<rparr>)
      else if state a = ERROR then (p, a\<lparr>promises := promises a @ [Rejected (error a)]\<rparr>)
      else (p, a\<lparr>promises := promises a @ [Pending], listeners := listeners a @ [p]\<rparr>))"

text \<open>
  What holds of an adapter however it was reached from the constructor: every listener is
  a promise of the adapter, and every pending promise has its handlers registered.
\<close>

definition consistent :: "adapter \<Rightarrow> bool" where
  "consistent a =
     (list_all (\<lambda>i. i < length (promises a)) (listeners a) \<and>
      list_all (\<lambda>i. promises a ! i = Pending \<longrightarrow> i \<in> set (listeners a)) [0..<length (promises a)])"

section \<open>Default CRUD methods\<close>

text \<open>
  An options object is shared between a caller and the methods it is passed to, and the
  methods assign to it. The options objects live in a heap, a list of objects addressed
  by position; a method receives the address. The world a method acts on is the heap
  together with the state of the data store. A method returns its result, \<open>Inl\<close> for a
  rejected promise, and the world after the call.
\<close>

type_synonym 's world = "object list \<times> 's"

type_synonym ('s, 'r) adapterMethod = "nat \<Rightarrow> 's world \<Rightarrow> (error + 'r) \<times> 's world"

text \<open>\<open>options[k]\<close>, \<open>options[k] = v\<close> and the allocation of a new object.\<close>

definition optionOf :: "'s world \<Rightarrow> nat \<Rightarrow> string \<Rightarrow> jsval" where
  "optionOf w options k = get (fst w ! options) k"

definition assign :: "'s world \<Rightarrow> nat \<Rightarrow> string \<Rightarrow> jsval \<Rightarrow> 's world" where
  "assign w options k v = ((fst w)[options := put (fst w ! options) k v], snd w)"

definition alloc :: "'s world \<Rightarrow> object \<Rightarrow> nat \<times> 's world" where
  "alloc w obj = (length (fst w), (fst w @ [obj], snd w))"

text \<open>
  \<open>Adapter.insertOne(table, entity)\<close>: the first of what the adapter's \<open>insertMany\<close> returns
  for the one-element list.
\<close>

definition insertOne ::
  "(string \<Rightarrow> object list \<Rightarrow> 's \<Rightarrow> (error + object list) \<times> 's) \<Rightarrow>
   string \<Rightarrow> object \<Rightarrow> 's \<Rightarrow> (error + object option) \<times> 's" where
  "insertOne insertMany table entity s =
     (case insertMany table [entity] s of
        (Inl e, s') \<Rightarrow> (Inl e, s')
      | (Inr inserted, s') \<Rightarrow> (Inr (first inserted), s'))"

text \<open>\<open>Adapter.findOne(table, queryFind, options)\<close>, over the adapter's \<open>findMany\<close>.\<close>

definition findOne ::
  "(string \<Rightarrow> jsval \<Rightarrow> ('s, object list) adapterMethod) \<Rightarrow> string \<Rightarrow> jsval \<Rightarrow> ('s, object option) adapterMethod" where
  "findOne findMany table queryFind options w =
     (case findMany table queryFind options (assign w options ''limit'' (JNum 1)) of
        (Inl e, w') \<Rightarrow> (Inl e, w')
      | (Inr found, w') \<Rightarrow> (Inr (first found), w'))"

text \<open>
  \<open>Adapter.updateOne(table, queryFind, update, options)\<close>, over the adapter's
  \<open>updateMany\<close>: the options are normalized into a new object, and the limit is set on
  that object.
\<close>

definition updateOne ::
  "(string \<times> transform) list \<Rightarrow> (string \<Rightarrow> jsval \<Rightarrow> object \<Rightarrow> ('s, object list) adapterMethod) \<Rightarrow>
   string \<Rightarrow> jsval \<Rightarrow> object \<Rightarrow> ('s, object option) adapterMethod" where
  "updateOne transforms updateMany table queryFind update options w =
     (case normalizeOptions transforms (fst w ! options) of
        Inl e \<Rightarrow> (Inl e, w)
      | Inr normalized \<Rightarrow>
          (case alloc w normalized of
             (options', w1) \<Rightarrow>
               (case updateMany table queryFind update options' (assign w1 options' ''limit'' (JNum 1)) of
                  (Inl e, w') \<Rightarrow> (Inl e, w')
                | (Inr updated, w') \<Rightarrow> (Inr (first updated), w'))))"

text \<open>\<open>Adapter.deleteOne(table, queryFind, options)\<close>, over the adapter's \<open>deleteMany\<close>.\<close>

definition deleteOne ::
  "(string \<Rightarrow> jsval \<Rightarrow> ('s, unit) adapterMethod) \<Rightarrow> string \<Rightarrow> jsval \<Rightarrow> ('s, unit) adapterMethod" where
  "deleteOne deleteMany table queryFind options w =
     deleteMany table queryFind options (assign w options ''limit'' (JNum 1))"

text \<open>
  \<open>Adapter.deleteMany(table, queryFind, options)\<close>, over the adapter's \<open>findOne\<close> and
  \<open>deleteOne\<close>. \<open>loopFind\<close> is the recursive closure of the method, with the counter
  \<open>count\<close> as argument; a loop that never ends has the value \<open>None\<close>.
\<close>

partial_function (option) loopFind ::
  "(string \<Rightarrow> jsval \<Rightarrow> ('s, object option) adapterMethod) \<Rightarrow> (string \<Rightarrow> jsval \<Rightarrow> ('s, unit) adapterMethod) \<Rightarrow>
   string \<Rightarrow> jsval \<Rightarrow> nat \<Rightarrow> nat \<Rightarrow> 's world \<Rightarrow> ((error + unit) \<times> 's world) option" where
  "loopFind findOne' deleteOne' table queryFind options count w =
     (case findOne' table queryFind options w of
        (Inl e, w1) \<Rightarrow> Some (Inl e, w1)
      | (Inr found, w1) \<Rightarrow>
          if found = None then Some (Inr (), w1)
          else if JNum (int count) = optionOf w1 options ''limit'' then Some (Inr (), w1)
          else (case deleteOne' table queryFind options w1 of
                  (Inl e, w2) \<Rightarrow> Some (Inl e, w2)
                | (Inr u, w2) \<Rightarrow>
                    loopFind findOne' deleteOne' table queryFind options (count + 1) w2))"

declare loopFind.simps [code]

definition deleteMany ::
  "(string \<Rightarrow> jsval \<Rightarrow> ('s, object option) adapterMethod) \<Rightarrow> (string \<Rightarrow> jsval \<Rightarrow> ('s, unit) adapterMethod) \<Rightarrow>
   string \<Rightarrow> jsval \<Rightarrow> nat \<Rightarrow> 's world \<Rightarrow> ((error + unit) \<times> 's world) option" where
  "deleteMany findOne' deleteOne' table queryFind options w =
     loopFind findOne' deleteOne' table queryFind options 0 w"

section \<open>Web storage adapter\<close>

text \<open>
  The \<open>Storage\<close> of the browser holds, under the name of a table, the JSON text of the
  index of the table (the ids of its items, a \<open>string[]\<close>) and, under the name of an item,
  the JSON text of the item. The model holds the parsed values, taking \<open>JSON.parse\<close> after
  \<open>JSON.stringify\<close> as the identity, and keeps the indexes and the items apart. An entity
  is modelled by its attributes; its \<open>id\<close> is the attribute of that name.
\<close>

record storage =
  indexes :: "string \<Rightarrow> string list option"
  entries :: "string \<Rightarrow> object option"

text \<open>\<open>WebStorageAdapter.ensureCollectionExists(table)\<close>.\<close>

definition ensureCollectionExists :: "string \<Rightarrow> storage \<Rightarrow> string list \<times> storage" where
  "ensureCollectionExists table st =
     (case indexes st table of
        None \<Rightarrow> ([], st\<lparr>indexes := (indexes st)(table \<mapsto> [])\<rparr>)
      | Some tableIndex \<Rightarrow> (tableIndex, st))"

text \<open>\<open>WebStorageAdapter.getItemName(table, id)\<close>.\<close>

definition getItemName :: "string \<Rightarrow> jsval \<Rightarrow> string" where
  "getItemName table itemId = table @ ''.id='' @ toStr itemId"

text \<open>\<open>WebStorageAdapter.findOneById(table, id)\<close>.\<close>

definition findOneById :: "string \<Rightarrow> jsval \<Rightarrow> storage \<Rightarrow> object option" where
  "findOneById table itemId st = entries st (getItemName table itemId)"

text \<open>
  The \<open>_.each\<close> of \<open>WebStorageAdapter.findOne\<close> over the index: \<open>matched\<close> counts the
  matching items seen so far, and the first item after \<open>options.skip\<close> matching items ends
  the traversal.
\<close>

fun scanItems ::
  "operators \<Rightarrow> string \<Rightarrow> jsval \<Rightarrow> jsval \<Rightarrow> storage \<Rightarrow> string list \<Rightarrow> int \<Rightarrow> object option" where
  "scanItems ops table queryFind skip st [] matched = None"
| "scanItems ops table queryFind skip st (itemId # itemIds) matched =
     (case entries st (getItemName table (JStr itemId)) of
        None \<Rightarrow> scanItems ops table queryFind skip st itemIds matched
      | Some item \<Rightarrow>
          if matchEntity ops queryFind item
          then (if numberGreater (matched + 1) skip then Some item
                else scanItems ops table queryFind skip st itemIds (matched + 1))
          else scanItems ops table queryFind skip st itemIds matched)"

text \<open>The test of \<open>findOne\<close> for a query that is exactly \<open>{ id: { $equal: ... } }\<close>.\<close>

definition searchesById :: "jsval \<Rightarrow> bool" where
  "searchesById queryFind =
     (map fst (toPairs queryFind) = [''id''] \<and>
      map fst (toPairs (get (toPairs queryFind) ''id'')) = [''$equal''])"

text \<open>\<open>WebStorageAdapter.findOne(table, queryFind, options)\<close>.\<close>

definition wsFindOne ::
  "operators \<Rightarrow> string \<Rightarrow> jsval \<Rightarrow> (storage, object option) adapterMethod" where
  "wsFindOne ops table queryFind options w =
     (let w1 = ((fst w)[options := defaults (fst w ! options) [(''skip'', JNum 0)]], snd w) in
      if \<not> isObject queryFind then (Inr (findOneById table queryFind (snd w1)), w1)
      else if searchesById queryFind
      then (Inr (findOneById table (get (toPairs (get (toPairs queryFind) ''id'')) ''$equal'')
                   (snd w1)), w1)
      else (case ensureCollectionExists table (snd w1) of
              (itemIds, st) \<Rightarrow>
                (Inr (scanItems ops table queryFind (optionOf w1 options ''skip'') st itemIds 0),
                 (fst w1, st))))"

text \<open>
  \<open>WebStorageAdapter.deleteOne(table, queryFind, options)\<close>. \<open>_.pull\<close> removes from the
  index every id that is the id of the entity.
\<close>

definition wsDeleteOne ::
  "operators \<Rightarrow> string \<Rightarrow> jsval \<Rightarrow> (storage, unit) adapterMethod" where
  "wsDeleteOne ops table queryFind options w =
     (case wsFindOne ops table queryFind options w of
        (Inl e, w1) \<Rightarrow> (Inl e, w1)
      | (Inr None, w1) \<Rightarrow> (Inr (), w1)
      | (Inr (Some entityToDelete), w1) \<Rightarrow>
          (case ensureCollectionExists table (snd w1) of
             (tableIndex, st) \<Rightarrow>
               (Inr (),
                (fst w1,
                 st\<lparr>indexes := (indexes st)
                        (table \<mapsto> filter (\<lambda>itemId. JStr itemId \<noteq> get entityToDelete ''id'') tableIndex),
                    entries := (entries st)(getItemName table (get entityToDelete ''id'') := None)\<rparr>))))"

text \<open>
  The calls that a many-method makes, in order: the methods of the adapter are wrapped so
  that each call is written to a log kept beside the store. A call of \<open>findOne\<close> is
  logged with whether it found an entity.
\<close>

datatype call = FindOneCall bool | DeleteOneCall

definition logged ::
  "((error + 'r) \<Rightarrow> call) \<Rightarrow> (string \<Rightarrow> jsval \<Rightarrow> ('s, 'r) adapterMethod) \<Rightarrow>
   string \<Rightarrow> jsval \<Rightarrow> ('s \<times> call list, 'r) adapterMethod" where
  "logged entry f table queryFind options w =
     (case f table queryFind options (fst w, fst (snd w)) of
        (r, w') \<Rightarrow> (r, (fst w', (snd w', snd (snd w) @ [entry r]))))"

fun foundEntry :: "error + object option \<Rightarrow> call" where
  "foundEntry (Inr (Some entity)) = FindOneCall True"
| "foundEntry r = FindOneCall False"

definition deletedEntry :: "error + unit \<Rightarrow> call" where
  "deletedEntry r = DeleteOneCall"

text \<open>
  The index of a table, the ids of its items that match a query, and the store without
  the items of some ids. A store is well formed for a table when the ids of the index are
  distinct and each item is stored under its own id.
\<close>

definition indexOf :: "storage \<Rightarrow> string \<Rightarrow> string list" where
  "indexOf st table = (case indexes st table of None \<Rightarrow> [] | Some tableIndex \<Rightarrow> tableIndex)"

definition matchesItem :: "operators \<Rightarrow> string \<Rightarrow> jsval \<Rightarrow> storage \<Rightarrow> string \<Rightarrow> bool" where
  "matchesItem ops table queryFind st itemId =
     (case entries st (getItemName table (JStr itemId)) of
        None \<Rightarrow> False
      | Some item \<Rightarrow> matchEntity ops queryFind item)"

definition matching :: "operators \<Rightarrow> string \<Rightarrow> jsval \<Rightarrow> storage \<Rightarrow> string list" where
  "matching ops table queryFind st = filter (matchesItem ops table queryFind st) (indexOf st table)"

definition wellFormed :: "string \<Rightarrow> storage \<Rightarrow> bool" where
  "wellFormed table st =
     (distinct (indexOf st table) \<and>
      list_all (\<lambda>itemId. case entries st (getItemName table (JStr itemId)) of
                  None \<Rightarrow> True
                | Some item \<Rightarrow> get item ''id'' = JStr itemId) (indexOf st table))"

text \<open>
  The id that \<open>WebStorageAdapter.findOne\<close> looks up directly, for a query that is no
  object or is exactly \<open>{ id: { $equal: id } }\<close>; \<open>None\<close> for a query that is matched
  against the items of the index.
\<close>

definition searchedId :: "jsval \<Rightarrow> jsval option" where
  "searchedId queryFind =
     (if \<not> isObject queryFind then Some queryFind
      else if searchesById queryFind
      then Some (get (toPairs (get (toPairs queryFind) ''id'')) ''$equal'')
      else None)"

text \<open>The store once the index of a table exists, and the store without an item.\<close>

definition ensured :: "string \<Rightarrow> storage \<Rightarrow> storage" where
  "ensured table st = snd (ensureCollectionExists table st)"

definition removed :: "string \<Rightarrow> string \<Rightarrow> storage \<Rightarrow> storage" where
  "removed table itemId st =
     st\<lparr>indexes := (indexes st)(table \<mapsto> filter (\<lambda>i. i \<noteq> itemId) (indexOf st table)),
        entries := (entries st)(getItemName table (JStr itemId) := None)\<rparr>"

text \<open>
  The log of a \<open>deleteMany\<close> that deletes \<open>deleted\<close> items: a \<open>findOne\<close> that finds and
  a \<open>deleteOne\<close> for each, and a last \<open>findOne\<close>.
\<close>

definition calls :: "nat \<Rightarrow> bool \<Rightarrow> call list" where
  "calls deleted found =
     concat (replicate deleted [FindOneCall True, DeleteOneCall]) @ [FindOneCall found]"

text \<open>
  The scenario of the specification: a table with five items that match a query, and one
  that does not.
\<close>

definition exampleStorage :: storage where
  "exampleStorage =
     \<lparr>indexes = [''users'' \<mapsto> [''a'', ''b'', ''c'', ''d'', ''e'', ''f'']],
      entries = [''users.id=a'' \<mapsto> [(''id'', JStr ''a''), (''age'', JNum 30)],
                 ''users.id=b'' \<mapsto> [(''id'', JStr ''b''), (''age'', JNum 10)],
                 ''users.id=c'' \<mapsto> [(''id'', JStr ''c''), (''age'', JNum 40)],
                 ''users.id=d'' \<mapsto> [(''id'', JStr ''d''), (''age'', JNum 50)],
                 ''users.id=e'' \<mapsto> [(''id'', JStr ''e''), (''age'', JNum 60)],
                 ''users.id=f'' \<mapsto> [(''id'', JStr ''f''), (''age'', JNum 70)]]\<rparr>"

definition exampleQuery :: jsval where
  "exampleQuery = JObj [(''age'', JObj [(''$greater'', JNum 18)])]"

definition exampleOptions :: object where
  "exampleOptions =
     [(''limit'', JNum 2), (''skip'', JNum 0), (''remapInput'', JBool True),
      (''remapOutput'', JBool True)]"

definition skippingOptions :: object where
  "skippingOptions =
     [(''limit'', JNum 2), (''skip'', JNum 4), (''remapInput'', JBool True),
      (''remapOutput'', JBool True)]"

section \<open>Properties of the matcher\<close>

lemma everyPairs_plain:
  "plainDescriptor d \<Longrightarrow> isObject d \<Longrightarrow> isOperatorMapping d \<and> everyPairs d = toPairs d"
  by (cases d) auto

lemma plainDescriptor_no_object: "plainDescriptor d \<Longrightarrow> isOperatorMapping d = isObject d"
  by (cases d) auto

lemma matchOperation_iff:
  "matchOperation ops x e \<longleftrightarrow> (\<exists>f. ops (fst e) = Some f \<and> f x (snd e))"
  by (simp add: matchOperation_def split: option.splits)

lemma matchField_plain:
  "plainDescriptor (snd p) \<Longrightarrow>
   matchField ops entity p \<longleftrightarrow>
     isOperatorMapping (snd p) \<and>
     (\<forall>e \<in> set (toPairs (snd p)). \<exists>f. ops (fst e) = Some f \<and> f (get entity (fst p)) (snd e))"
  by (cases "snd p") (auto simp: matchField_def matchOperation_iff list_all_iff)

lemma matchEntity_spec:
  "\<forall>p \<in> set (toPairs query). plainDescriptor (snd p) \<Longrightarrow>
   matchEntity ops query entity = matches_spec ops query entity"
  unfolding matchEntity_def matches_spec_def list_all_iff
  by (intro ball_cong refl)
    (auto simp: matchField_plain list_all_iff split: option.splits)

lemma operators_plain:
  "ops ''length'' = None \<Longrightarrow> \<forall>e \<in> set desc. ops (fst e) \<noteq> None \<Longrightarrow> plainDescriptor (JObj desc)"
proof -
  assume none: "ops ''length'' = None" and known: "\<forall>e \<in> set desc. ops (fst e) \<noteq> None"
  have "get desc ''length'' = JUndefined"
  proof (rule ccontr)
    assume "get desc ''length'' \<noteq> JUndefined"
    then have "(''length'', get desc ''length'') \<in> set desc"
      by (induction desc) (auto split: if_splits)
    with known none show False by force
  qed
  then show ?thesis by simp
qed

text \<open>
  Claim C1, as the code has it. For every query in which no descriptor is an array, a
  date or an object with an array-like \<open>length\<close>, and every record, \<open>matchEntity\<close> is true
  exactly when every field of the query has an operator mapping as descriptor and the
  record's value at the field satisfies the predicate of every entry of the mapping. The
  canonical queries are among these queries: a query whose descriptors are mappings of
  operators of the table, when \<open>length\<close> is no operator of the table. In every query, a
  field whose descriptor is no object (a scalar, \<open>null\<close>, \<open>undefined\<close>) makes the match
  false, and so does an entry, in a descriptor of the kind above, whose name is not in the
  operator table.
\<close>

theorem matchEntity_iff:
  "((\<forall>p \<in> set (toPairs query). plainDescriptor (snd p)) \<longrightarrow>
      (matchEntity ops query entity \<longleftrightarrow>
         (\<forall>p \<in> set (toPairs query). isOperatorMapping (snd p) \<and>
            (\<forall>e \<in> set (toPairs (snd p)).
               \<exists>f. ops (fst e) = Some f \<and> f (get entity (fst p)) (snd e))))) \<and>
   (ops ''length'' = None \<longrightarrow>
      (\<forall>p \<in> set (toPairs query). isOperatorMapping (snd p) \<and>
         (\<forall>e \<in> set (toPairs (snd p)). ops (fst e) \<noteq> None)) \<longrightarrow>
      (\<forall>p \<in> set (toPairs query). plainDescriptor (snd p))) \<and>
   ((\<exists>p \<in> set (toPairs query). \<not> isObject (snd p)) \<longrightarrow> \<not> matchEntity ops query entity) \<and>
   ((\<exists>p \<in> set (toPairs query). plainDescriptor (snd p) \<and>
        (\<exists>e \<in> set (toPairs (snd p)). ops (fst e) = None)) \<longrightarrow>
      \<not> matchEntity ops query entity)"
proof (intro conjI impI)
  assume plain: "\<forall>p \<in> set (toPairs query). plainDescriptor (snd p)"
  show "matchEntity ops query entity \<longleftrightarrow>
         (\<forall>p \<in> set (toPairs query). isOperatorMapping (snd p) \<and>
            (\<forall>e \<in> set (toPairs (snd p)).
               \<exists>f. ops (fst e) = Some f \<and> f (get entity (fst p)) (snd e)))"
    unfolding matchEntity_def list_all_iff
    by (intro ball_cong refl) (simp add: matchField_plain plain)
next
  assume none: "ops ''length'' = None"
    and known: "\<forall>p \<in> set (toPairs query). isOperatorMapping (snd p) \<and>
         (\<forall>e \<in> set (toPairs (snd p)). ops (fst e) \<noteq> None)"
  show "\<forall>p \<in> set (toPairs query). plainDescriptor (snd p)"
  proof
    fix p assume "p \<in> set (toPairs query)"
    with known have m: "isOperatorMapping (snd p)"
      and k: "\<forall>e \<in> set (toPairs (snd p)). ops (fst e) \<noteq> None" by auto
    from m obtain desc where d: "snd p = JObj desc" by (cases "snd p") auto
    with k none operators_plain [of ops desc] show "plainDescriptor (snd p)" by simp
  qed
next
  assume "\<exists>p \<in> set (toPairs query). \<not> isObject (snd p)"
  then show "\<not> matchEntity ops query entity"
    by (auto simp: matchEntity_def matchField_def list_all_iff)
next
  assume "\<exists>p \<in> set (toPairs query). plainDescriptor (snd p) \<and>
        (\<exists>e \<in> set (toPairs (snd p)). ops (fst e) = None)"
  then obtain p e where p: "p \<in> set (toPairs query)" and pl: "plainDescriptor (snd p)"
    and e: "e \<in> set (toPairs (snd p))" "ops (fst e) = None" by blast
  from e have "\<not> (\<forall>e \<in> set (toPairs (snd p)).
      \<exists>f. ops (fst e) = Some f \<and> f (get entity (fst p)) (snd e))"
    by force
  with pl have "\<not> matchField ops entity p"
    by (simp only: matchField_plain) blast
  with p show "\<not> matchEntity ops query entity"
    by (auto simp: matchEntity_def list_all_iff)
qed

theorem matchEntity_iff_witness:
  "matchEntity (OPERATORS plainTest)
     (JObj [(''age'', JObj [(''$greater'', JNum 18), (''$less'', JNum 65)]),
            (''name'', JObj [(''$regex'', JStr ''^A'')])])
     [(''name'', JStr ''Alice''), (''age'', JNum 30)]
   \<and> \<not> matchEntity (OPERATORS plainTest) (JObj [(''age'', JObj [(''$older'', JNum 18)])])
     [(''name'', JStr ''Alice''), (''age'', JNum 30)]
   \<and> \<not> matchEntity (OPERATORS plainTest) (JObj [(''age'', JNum 30)])
     [(''name'', JStr ''Alice''), (''age'', JNum 30)]"
proof -
  let ?r = "[(''name'', JStr ''Alice''), (''age'', JNum 30)]"
  let ?q = "JObj [(''age'', JObj [(''$greater'', JNum 18), (''$less'', JNum 65)]),
            (''name'', JObj [(''$regex'', JStr ''^A'')])]"
  have "matchEntity (OPERATORS plainTest) ?q ?r"
    using matchEntity_iff [of ?q "OPERATORS plainTest" ?r]
    by (simp add: OPERATORS_def compareNum_def)
  moreover have "\<not> matchEntity (OPERATORS plainTest) (JObj [(''age'', JObj [(''$older'', JNum 18)])]) ?r"
    using matchEntity_iff [of "JObj [(''age'', JObj [(''$older'', JNum 18)])]" "OPERATORS plainTest" ?r]
    by (simp add: OPERATORS_def)
  moreover have "\<not> matchEntity (OPERATORS plainTest) (JObj [(''age'', JNum 30)]) ?r"
    using matchEntity_iff [of "JObj [(''age'', JNum 30)]" "OPERATORS plainTest" ?r]
    by simp
  ultimately show ?thesis by blast
qed

text \<open>
  The claim as written fails in its last part, on a descriptor that is an object without
  being an operator mapping: \<open>_.every\<close> over the empty array calls nothing, so the field
  matches.
\<close>

theorem matchEntity_array_descriptor_counterexample:
  "matchEntity (OPERATORS plainTest) (JObj [(''tags'', JArr [])]) [(''tags'', JStr ''x'')]
   \<and> \<not> isOperatorMapping (JArr [])
   \<and> \<not> matches_spec (OPERATORS plainTest) (JObj [(''tags'', JArr [])]) [(''tags'', JStr ''x'')]"
  by (simp add: matchEntity_def matchField_def matches_spec_def)

text \<open>
  Likewise a descriptor with an array-like \<open>length\<close> is visited by index and not by its
  entries: with \<open>length = 0\<close> nothing is called and the field matches.
\<close>

lemma matchEntity_array_like_descriptor:
  "matchEntity (OPERATORS plainTest) (JObj [(''name'', JObj [(''length'', JNum 0)])]) [(''name'', JStr ''x'')]
   \<and> \<not> matches_spec (OPERATORS plainTest) (JObj [(''name'', JObj [(''length'', JNum 0)])])
       [(''name'', JStr ''x'')]"
  by (simp add: matchEntity_def matchField_def matches_spec_def OPERATORS_def)

section \<open>Properties of the query normalizer\<close>


lemma get_put: "get (put r k v) k' = (if k' = k then v else get r k')"
  by (induction r) auto

lemma has_Nil [simp]: "\<not> has [] k"
  by (simp add: has_def)

lemma has_Cons [simp]: "has (p # r) k \<longleftrightarrow> k = fst p \<or> has r k"
  by (auto simp: has_def)

lemma has_put: "has (put r k v) k' \<longleftrightarrow> k' = k \<or> has r k'"
  by (induction r) (auto split: if_splits)

lemma put_fresh: "\<not> has r k \<Longrightarrow> put r k v = r @ [(k, v)]"
  by (induction r) auto

lemma mapValues_append:
  "mapValues f (xs @ ys) =
     (case mapValues f xs of Inl e \<Rightarrow> Inl e
      | Inr xs' \<Rightarrow> (case mapValues f ys of Inl e \<Rightarrow> Inl e | Inr ys' \<Rightarrow> Inr (xs' @ ys')))"
  by (induction xs) (auto split: sum.splits)

lemma mapValues_scalar:
  "\<forall>p \<in> set attrs. f (snd p) = Inr (g (snd p)) \<Longrightarrow>
   mapValues f attrs = Inr (map (\<lambda>p. (fst p, g (snd p))) attrs)"
  by (induction attrs) auto

lemma mapValues_all2:
  "mapValues f attrs = Inr attrs' \<Longrightarrow>
   list_all2 (\<lambda>p p'. fst p' = fst p \<and> f (snd p) = Inr (snd p')) attrs attrs'"
  by (induction attrs arbitrary: attrs') (auto split: sum.splits)

lemma mapKeys_conflict:
  "canon synonym = Some canonical \<Longrightarrow> has rest synonym \<Longrightarrow> has obj canonical \<Longrightarrow>
   \<exists>a c. mapKeys canon obj rest result = Inl (Conflict a c) \<and> canon a = Some c \<and>
         has rest a \<and> has obj c"
proof (induction rest arbitrary: result)
  case Nil
  then show ?case by simp
next
  case (Cons p rest)
  obtain operator val where p: "p = (operator, val)" by (cases p)
  show ?case
  proof (cases "\<exists>c. canon operator = Some c \<and> has obj c")
    case True
    then obtain c where "canon operator = Some c" "has obj c" by blast
    with p show ?thesis by auto
  next
    case False
    with Cons.prems p have tail: "has rest synonym" by auto
    define result' where
      "result' = (case canon operator of Some c \<Rightarrow> put result c val | None \<Rightarrow> put result operator val)"
    from False p have step: "mapKeys canon obj (p # rest) result = mapKeys canon obj rest result'"
      by (auto simp: result'_def split: option.splits)
    from Cons.IH [OF Cons.prems(1) tail Cons.prems(3), of result']
    obtain a c where "mapKeys canon obj rest result' = Inl (Conflict a c)" "canon a = Some c"
      "has rest a" "has obj c" by blast
    with step show ?thesis by auto
  qed
qed

lemma checkArithmetic_fails:
  "operation \<in> set operations \<Longrightarrow> has attrSearch operation \<Longrightarrow>
   \<not> (isNumber (get attrSearch operation) \<or> isDate (get attrSearch operation)) \<Longrightarrow>
   \<exists>op. checkArithmetic operations attrSearch = Inl (NotNumeric op (JObj attrSearch)) \<and>
        op \<in> set operations \<and> has attrSearch op \<and>
        \<not> (isNumber (get attrSearch op) \<or> isDate (get attrSearch op))"
  by (induction operations) auto

lemma checkArithmetic_ok:
  "list_all (\<lambda>operation. has attrSearch operation \<longrightarrow>
      isNumber (get attrSearch operation) \<or> isDate (get attrSearch operation)) operations \<Longrightarrow>
   checkArithmetic operations attrSearch = Inr attrSearch"
  by (induction operations) auto

lemma mapKeys_no_alias:
  "list_all (\<lambda>p. canon (fst p) = None) rest \<Longrightarrow> distinct (map fst (result @ rest)) \<Longrightarrow>
   mapKeys canon obj rest result = Inr (result @ rest)"
proof (induction rest arbitrary: result)
  case Nil
  then show ?case by simp
next
  case (Cons p rest)
  obtain operator val where p: "p = (operator, val)" by (cases p)
  from Cons.prems p have fresh: "\<not> has result operator" by (auto simp: has_def)
  from Cons.prems p have "distinct (map fst ((result @ [(operator, val)]) @ rest))" by auto
  with Cons.IH [of "result @ [(operator, val)]"] Cons.prems p fresh show ?case
    by (simp add: put_fresh)
qed

lemma normalizeAttr_scalar:
  "\<not> instanceofObject v \<Longrightarrow>
   normalizeAttr canon v =
     Inr (if v = JUndefined then JObj [(''$exists'', JBool False)] else JObj [(''$equal'', v)])"
  by (simp add: normalizeAttr_def)

text \<open>
  Claim C3, as the code has it. When \<open>options.remapInput\<close> is \<open>true\<close>, a bare string
  becomes \<open>{ id: { $equal: string } }\<close>, and in a mapping each field whose value is
  \<open>undefined\<close> becomes \<open>{ $exists: false }\<close> and each field whose value is no instance
  of \<open>Object\<close> (null, a boolean, a number, a string) becomes \<open>{ $equal: value }\<close>; a query
  with such fields only is always normalized. When \<open>options.remapInput\<close> is not \<open>true\<close>
  the query is returned as it is, a bare string as \<open>{ id: string }\<close>.
\<close>

theorem normalizeQuery_shorthands:
  "(get options ''remapInput'' = JBool True \<longrightarrow>
      normalizeQuery canon (JStr s) options = Inr (JObj [(''id'', JObj [(''$equal'', JStr s)])]) \<and>
      (\<forall>q. normalizeQuery canon (JObj attrs) options = Inr q \<longrightarrow>
         (\<exists>attrs'. q = JObj attrs' \<and>
            list_all2 (\<lambda>p p'. fst p' = fst p \<and>
                (snd p = JUndefined \<longrightarrow> snd p' = JObj [(''$exists'', JBool False)]) \<and>
                (snd p \<noteq> JUndefined \<and> \<not> instanceofObject (snd p) \<longrightarrow>
                   snd p' = JObj [(''$equal'', snd p)]))
              attrs attrs')) \<and>
      ((\<forall>p \<in> set attrs. \<not> instanceofObject (snd p)) \<longrightarrow>
         normalizeQuery canon (JObj attrs) options =
           Inr (JObj (map (\<lambda>p. (fst p,
                  if snd p = JUndefined then JObj [(''$exists'', JBool False)]
                  else JObj [(''$equal'', snd p)])) attrs)))) \<and>
   (get options ''remapInput'' \<noteq> JBool True \<longrightarrow>
      normalizeQuery canon (JStr s) options = Inr (JObj [(''id'', JStr s)]) \<and>
      normalizeQuery canon (JObj attrs) options = Inr (JObj attrs))"
proof (intro conjI impI allI)
  assume remap: "get options ''remapInput'' = JBool True"
  show "normalizeQuery canon (JStr s) options = Inr (JObj [(''id'', JObj [(''$equal'', JStr s)])])"
    using remap by (simp add: normalizeQuery_def normalizeAttr_def)
  {
    fix q
    assume "normalizeQuery canon (JObj attrs) options = Inr q"
    with remap obtain attrs' where q: "q = JObj attrs'"
      and mv: "mapValues (normalizeAttr canon) attrs = Inr attrs'"
      by (auto simp: normalizeQuery_def split: sum.splits)
    have "list_all2 (\<lambda>p p'. fst p' = fst p \<and>
                (snd p = JUndefined \<longrightarrow> snd p' = JObj [(''$exists'', JBool False)]) \<and>
                (snd p \<noteq> JUndefined \<and> \<not> instanceofObject (snd p) \<longrightarrow>
                   snd p' = JObj [(''$equal'', snd p)]))
              attrs attrs'"
      by (rule list_all2_mono [OF mapValues_all2 [OF mv]]) (auto simp: normalizeAttr_def)
    with q show "\<exists>attrs'. q = JObj attrs' \<and>
            list_all2 (\<lambda>p p'. fst p' = fst p \<and>
                (snd p = JUndefined \<longrightarrow> snd p' = JObj [(''$exists'', JBool False)]) \<and>
                (snd p \<noteq> JUndefined \<and> \<not> instanceofObject (snd p) \<longrightarrow>
                   snd p' = JObj [(''$equal'', snd p)]))
              attrs attrs'" by blast
  }
  {
    assume scalars: "\<forall>p \<in> set attrs. \<not> instanceofObject (snd p)"
    then have "mapValues (normalizeAttr canon) attrs =
        Inr (map (\<lambda>p. (fst p,
                  if snd p = JUndefined then JObj [(''$exists'', JBool False)]
                  else JObj [(''$equal'', snd p)])) attrs)"
      by (intro mapValues_scalar ballI normalizeAttr_scalar) simp
    with remap show "normalizeQuery canon (JObj attrs) options =
           Inr (JObj (map (\<lambda>p. (fst p,
                  if snd p = JUndefined then JObj [(''$exists'', JBool False)]
                  else JObj [(''$equal'', snd p)])) attrs))"
      by (simp add: normalizeQuery_def)
  }
next
  assume "get options ''remapInput'' \<noteq> JBool True"
  then show "normalizeQuery canon (JStr s) options = Inr (JObj [(''id'', JStr s)])"
    by (simp add: normalizeQuery_def)
next
  assume "get options ''remapInput'' \<noteq> JBool True"
  then show "normalizeQuery canon (JObj attrs) options = Inr (JObj attrs)"
    by (simp add: normalizeQuery_def)
qed


theorem normalizeQuery_shorthands_witness:
  "normalizeQuery CANONICAL_OPERATORS (JStr ''42'') [(''remapInput'', JBool True)] =
     Inr (JObj [(''id'', JObj [(''$equal'', JStr ''42'')])])
   \<and> normalizeQuery CANONICAL_OPERATORS
       (JObj [(''name'', JStr ''Alice''), (''email'', JUndefined), (''age'', JNum 30)])
       [(''remapInput'', JBool True)] =
     Inr (JObj [(''name'', JObj [(''$equal'', JStr ''Alice'')]),
                (''email'', JObj [(''$exists'', JBool False)]),
                (''age'', JObj [(''$equal'', JNum 30)])])
   \<and> normalizeQuery CANONICAL_OPERATORS (JStr ''42'') [(''remapInput'', JBool False)] =
     Inr (JObj [(''id'', JStr ''42'')])"
  using normalizeQuery_shorthands [of "[(''remapInput'', JBool True)]" CANONICAL_OPERATORS "''42''"
      "[(''name'', JStr ''Alice''), (''email'', JUndefined), (''age'', JNum 30)]"]
    normalizeQuery_shorthands [of "[(''remapInput'', JBool False)]" CANONICAL_OPERATORS "''42''" "[]"]
  by simp

text \<open>
  The claim as written fails twice: a bare number is not rewritten to a search by id (the
  result is the empty query), and with \<open>remapInput\<close> switched off no field is rewritten.
\<close>

theorem normalizeQuery_number_counterexample:
  "normalizeQuery CANONICAL_OPERATORS (JNum 42) [(''remapInput'', JBool True)] = Inr (JObj [])
   \<and> normalizeQuery CANONICAL_OPERATORS (JNum 42) [(''remapInput'', JBool True)] \<noteq>
       Inr (JObj [(''id'', JObj [(''$equal'', JNum 42)])])
   \<and> normalizeQuery CANONICAL_OPERATORS (JObj [(''name'', JStr ''Alice'')])
       [(''remapInput'', JBool False)] = Inr (JObj [(''name'', JStr ''Alice'')])
   \<and> normalizeQuery CANONICAL_OPERATORS (JObj [(''name'', JStr ''Alice'')])
       [(''remapInput'', JBool False)] \<noteq> Inr (JObj [(''name'', JObj [(''$equal'', JStr ''Alice'')])])"
  by (simp add: normalizeQuery_def)

text \<open>
  Claim C4, as the code has it. When \<open>options.remapInput\<close> is \<open>true\<close> and the fields
  before it are normalized without error, a field whose descriptor holds an alias together
  with its canonical name makes \<open>normalizeQuery\<close> throw the conflict error, which names an
  alias of that descriptor and its canonical name, both keys of the descriptor.
  \<open>normalizeQuery\<close> is a function of the query and the options alone: no store is read.
\<close>

theorem normalizeQuery_conflict:
  assumes "get options ''remapInput'' = JBool True"
    and "mapValues (normalizeAttr canon) before = Inr before'"
    and "instanceofObject desc"
    and "canon synonym = Some canonical"
    and "has (toPairs desc) synonym"
    and "has (toPairs desc) canonical"
  shows "\<exists>a c. normalizeQuery canon (JObj (before @ (field, desc) # after)) options =
            Inl (Conflict a c) \<and>
          canon a = Some c \<and> has (toPairs desc) a \<and> has (toPairs desc) c"
proof -
  from mapKeys_conflict [of canon synonym canonical "toPairs desc" "toPairs desc" "[]"] assms(4-6)
  obtain a c where mk: "mapKeys canon (toPairs desc) (toPairs desc) [] = Inl (Conflict a c)"
    and ac: "canon a = Some c" "has (toPairs desc) a" "has (toPairs desc) c" by blast
  from assms(3) have "desc \<noteq> JUndefined" by auto
  with assms(3) mk have "normalizeAttr canon desc = Inl (Conflict a c)"
    by (simp add: normalizeAttr_def)
  with assms(1,2) have "normalizeQuery canon (JObj (before @ (field, desc) # after)) options =
      Inl (Conflict a c)"
    by (simp add: normalizeQuery_def mapValues_append)
  with ac show ?thesis by blast
qed

theorem normalizeQuery_conflict_witness:
  "normalizeQuery CANONICAL_OPERATORS
     (JObj [(''name'', JStr ''Alice''), (''age'', JObj [(''$gt'', JNum 18), (''$greater'', JNum 21)])])
     [(''remapInput'', JBool True)] = Inl (Conflict ''$gt'' ''$greater'')"
  using normalizeQuery_conflict [of "[(''remapInput'', JBool True)]" CANONICAL_OPERATORS
      "[(''name'', JStr ''Alice'')]" "[(''name'', JObj [(''$equal'', JStr ''Alice'')])]"
      "JObj [(''$gt'', JNum 18), (''$greater'', JNum 21)]" "''$gt''" "''$greater''" "''age''" "[]"]
  by (simp add: normalizeQuery_def normalizeAttr_def CANONICAL_OPERATORS_def)

text \<open>
  The claim as written fails when \<open>remapInput\<close> is switched off: the conflicting query is
  returned without an error.
\<close>

theorem normalizeQuery_conflict_counterexample:
  "normalizeQuery CANONICAL_OPERATORS
     (JObj [(''age'', JObj [(''$gt'', JNum 18), (''$greater'', JNum 21)])])
     [(''remapInput'', JBool False)] =
   Inr (JObj [(''age'', JObj [(''$gt'', JNum 18), (''$greater'', JNum 21)])])"
  by (simp add: normalizeQuery_def)

text \<open>
  Claim C5, as the code has it. When \<open>options.remapInput\<close> is \<open>true\<close>, the fields before
  it are normalized without error and the aliases of the descriptor are rewritten without
  conflict, a descriptor in which one of the four arithmetic operators has an operand that
  is neither a number nor a date makes \<open>normalizeQuery\<close> throw the type error. Its message
  names such an operator and the JSON text of the whole rewritten descriptor, which holds
  the operand.
\<close>

theorem normalizeQuery_arithmetic:
  assumes "get options ''remapInput'' = JBool True"
    and "mapValues (normalizeAttr canon) before = Inr before'"
    and "instanceofObject desc"
    and "mapKeys canon (toPairs desc) (toPairs desc) [] = Inr renamed"
    and "operation \<in> set arithmeticOperators"
    and "has renamed operation"
    and "\<not> (isNumber (get renamed operation) \<or> isDate (get renamed operation))"
  shows "\<exists>op. normalizeQuery canon (JObj (before @ (field, desc) # after)) options =
            Inl (NotNumeric op (JObj renamed)) \<and>
          op \<in> set arithmeticOperators \<and> has renamed op \<and>
          \<not> (isNumber (get renamed op) \<or> isDate (get renamed op))"
proof -
  from checkArithmetic_fails [OF assms(5-7)]
  obtain op where ca: "checkArithmetic arithmeticOperators renamed = Inl (NotNumeric op (JObj renamed))"
    and op: "op \<in> set arithmeticOperators" "has renamed op"
      "\<not> (isNumber (get renamed op) \<or> isDate (get renamed op))" by blast
  from assms(3) have "desc \<noteq> JUndefined" by auto
  with assms(3,4) ca have "normalizeAttr canon desc = Inl (NotNumeric op (JObj renamed))"
    by (simp add: normalizeAttr_def)
  with assms(1,2) have "normalizeQuery canon (JObj (before @ (field, desc) # after)) options =
      Inl (NotNumeric op (JObj renamed))"
    by (simp add: normalizeQuery_def mapValues_append)
  with op show ?thesis by blast
qed

theorem normalizeQuery_arithmetic_witness:
  "normalizeQuery CANONICAL_OPERATORS (JObj [(''age'', JObj [(''$greater'', JStr ''old'')])])
     [(''remapInput'', JBool True)] =
   Inl (NotNumeric ''$greater'' (JObj [(''$greater'', JStr ''old'')]))"
  using normalizeQuery_arithmetic [of "[(''remapInput'', JBool True)]" CANONICAL_OPERATORS
      "[]" "[]" "JObj [(''$greater'', JStr ''old'')]" "[(''$greater'', JStr ''old'')]"
      "''$greater''" "''age''" "[]"]
  by (simp add: normalizeQuery_def normalizeAttr_def CANONICAL_OPERATORS_def arithmeticOperators_def)

text \<open>
  The claim as written fails when \<open>remapInput\<close> is switched off: the query with the
  string operand is returned without an error.
\<close>

theorem normalizeQuery_arithmetic_counterexample:
  "normalizeQuery CANONICAL_OPERATORS (JObj [(''age'', JObj [(''$greater'', JStr ''old'')])])
     [(''remapInput'', JBool False)] =
   Inr (JObj [(''age'', JObj [(''$greater'', JStr ''old'')])])"
  by (simp add: normalizeQuery_def)

section \<open>Idempotence of the normalizers\<close>


lemma mapValues_id:
  "\<forall>p \<in> set attrs. f (snd p) = Inr (snd p) \<Longrightarrow> mapValues f attrs = Inr attrs"
  using mapValues_scalar [of attrs f "\<lambda>v. v"] by simp

lemma normalizeAttr_canonical:
  "canonicalDescriptor canon desc \<Longrightarrow> normalizeAttr canon desc = Inr desc"
proof (cases desc)
  case (JObj ops)
  assume "canonicalDescriptor canon desc"
  with JObj have d: "distinct (map fst ops)" and na: "list_all (\<lambda>p. canon (fst p) = None) ops"
    and ar: "list_all (\<lambda>operation. has ops operation \<longrightarrow>
          isNumber (get ops operation) \<or> isDate (get ops operation)) arithmeticOperators"
    by simp_all
  from mapKeys_no_alias [of canon ops "[]" ops] d na
  have "mapKeys canon ops ops [] = Inr ops" by simp
  with checkArithmetic_ok [OF ar] JObj show ?thesis
    by (simp add: normalizeAttr_def)
qed simp_all

lemma normalizeQuery_canonical:
  "canonicalQuery canon q \<Longrightarrow> normalizeQuery canon q options = Inr q"
proof (cases q)
  case (JObj attrs)
  assume "canonicalQuery canon q"
  with JObj have "\<forall>p \<in> set attrs. normalizeAttr canon (snd p) = Inr (snd p)"
    by (auto simp: list_all_iff intro: normalizeAttr_canonical)
  from mapValues_id [OF this] JObj show ?thesis
    by (simp add: normalizeQuery_def Let_def)
qed simp_all

lemma put_same: "has opts k \<Longrightarrow> put opts k (get opts k) = opts"
  by (induction opts) auto

lemma has_if_defined: "get opts k \<noteq> JUndefined \<Longrightarrow> has opts k"
  by (induction opts) (auto split: if_splits)

lemma applyTransforms_stable:
  "\<forall>p \<in> set transforms. has y (fst p) \<longrightarrow> snd p y = Inr y \<Longrightarrow>
   applyTransforms transforms y = Inr y"
  by (induction transforms) auto

lemma applyTransforms_empty: "applyTransforms transforms [] = Inr []"
  by (induction transforms) auto

lemma applyTransforms_pointwise:
  "applyTransforms (transformsOf table) x = Inr y \<Longrightarrow> distinct (map fst table) \<Longrightarrow>
   (\<forall>k. has y k = has x k) \<and>
   (\<forall>p \<in> set table. has x (fst p) \<longrightarrow> snd p (get x (fst p)) = Inr (get y (fst p))) \<and>
   (\<forall>k. k \<notin> fst ` set table \<longrightarrow> get y k = get x k)"
proof (induction table arbitrary: x)
  case Nil
  then show ?case by (simp add: transformsOf_def)
next
  case (Cons p table)
  obtain n f where p: "p = (n, f)" by (cases p)
  from Cons.prems(2) p have dist: "distinct (map fst table)" and fresh: "n \<notin> fst ` set table"
    by auto
  define x1 where "x1 = (if has x n then put x n (projr (f (get x n))) else x)"
  from Cons.prems(1) p have run: "applyTransforms (transformsOf table) x1 = Inr y"
    and ok: "has x n \<Longrightarrow> f (get x n) = Inr (projr (f (get x n)))"
    by (auto simp: transformsOf_def optionTransform_def x1_def split: if_splits sum.splits)
  from Cons.IH [OF run dist]
  have ih1: "\<And>k. has y k = has x1 k"
    and ih2: "\<And>q. q \<in> set table \<Longrightarrow> has x1 (fst q) \<Longrightarrow> snd q (get x1 (fst q)) = Inr (get y (fst q))"
    and ih3: "\<And>k. k \<notin> fst ` set table \<Longrightarrow> get y k = get x1 k"
    by blast+
  have has1: "\<And>k. has x1 k = has x k" by (auto simp: x1_def has_put)
  have get1: "\<And>k. k \<noteq> n \<Longrightarrow> get x1 k = get x k" by (simp add: x1_def get_put)
  have getn: "has x n \<Longrightarrow> get x1 n = projr (f (get x n))" by (simp add: x1_def get_put)
  show ?case
  proof (intro conjI allI ballI impI)
    fix k show "has y k = has x k" by (simp add: ih1 has1)
  next
    fix q assume q: "q \<in> set (p # table)" and hq: "has x (fst q)"
    show "snd q (get x (fst q)) = Inr (get y (fst q))"
    proof (cases "q = p")
      case True
      with p hq ok ih3 [OF fresh] getn show ?thesis by simp
    next
      case False
      with q have qt: "q \<in> set table" by simp
      with fresh have "fst q \<noteq> n" by force
      with ih2 [OF qt] hq has1 get1 show ?thesis by simp
    qed
  next
    fix k assume "k \<notin> fst ` set (p # table)"
    with p have "k \<noteq> n" "k \<notin> fst ` set table" by auto
    with ih3 get1 show "get y k = get x k" by simp
  qed
qed


lemma defaults_defined:
  "get opts ''skip'' \<noteq> JUndefined \<Longrightarrow> get opts ''remapInput'' \<noteq> JUndefined \<Longrightarrow>
   get opts ''remapOutput'' \<noteq> JUndefined \<Longrightarrow> defaults opts defaultOptions = opts"
  by (simp add: defaultOptions_def)

lemma get_defaults:
  "get (defaults opts defaultOptions) k =
     (if get opts k = JUndefined then get defaultOptions k else get opts k)"
  by (simp add: defaultOptions_def get_put)

lemma has_defaults:
  "has (defaults opts defaultOptions) k \<longleftrightarrow> has opts k \<or> (get opts k = JUndefined \<and> has defaultOptions k)"
  by (auto simp: defaultOptions_def has_put get_put dest: has_if_defined)

lemma get_defaultOptions_defined: "has defaultOptions k \<Longrightarrow> get defaultOptions k \<noteq> JUndefined"
  by (auto simp: defaultOptions_def)

lemma get_in_set: "has opts k \<Longrightarrow> (k, get opts k) \<in> set opts"
  by (induction opts) (auto split: if_splits)

lemma get_defaultOptions:
  "get defaultOptions ''skip'' = JNum 0"
  "get defaultOptions ''remapInput'' = JBool True"
  "get defaultOptions ''remapOutput'' = JBool True"
  by (simp_all add: defaultOptions_def)

lemma normalizeOptions_twice:
  assumes dist: "distinct (map fst table)"
    and idem: "\<forall>p \<in> set table. \<forall>v v'. snd p v = Inr v' \<longrightarrow> snd p v' = Inr v'"
    and dflt: "\<forall>p \<in> set table. \<forall>d \<in> set defaultOptions. fst d = fst p \<longrightarrow> snd p (snd d) = Inr (snd d)"
    and run: "normalizeOptions (transformsOf table) x = Inr y"
  shows "normalizeOptions (transformsOf table) y = Inr y"
proof -
  from run obtain z where z: "applyTransforms (transformsOf table) x = Inr z"
    and y: "y = defaults z defaultOptions"
    by (auto simp: normalizeOptions_def split: sum.splits)
  from applyTransforms_pointwise [OF z dist]
  have hz: "\<And>k. has z k = has x k"
    and fz: "\<And>p. p \<in> set table \<Longrightarrow> has x (fst p) \<Longrightarrow> snd p (get x (fst p)) = Inr (get z (fst p))"
    by blast+
  have fixed: "snd p (get y (fst p)) = Inr (get y (fst p))" if p: "p \<in> set table" and h: "has y (fst p)" for p
  proof (cases "get z (fst p) = JUndefined")
    case False
    then have "has z (fst p)" by (rule has_if_defined)
    with hz fz [OF p] have "snd p (get x (fst p)) = Inr (get z (fst p))" by simp
    with idem p have "snd p (get z (fst p)) = Inr (get z (fst p))" by blast
    with False y show ?thesis by (simp add: get_defaults)
  next
    case True
    show ?thesis
    proof (cases "has defaultOptions (fst p)")
      case True
      then have "(fst p, get defaultOptions (fst p)) \<in> set defaultOptions" by (rule get_in_set)
      with dflt p have "snd p (get defaultOptions (fst p)) = Inr (get defaultOptions (fst p))"
        by fastforce
      with \<open>get z (fst p) = JUndefined\<close> y show ?thesis by (simp add: get_defaults)
    next
      case False
      with h y have hzp: "has z (fst p)" by (simp add: has_defaults)
      with hz fz [OF p] True have "snd p (get x (fst p)) = Inr JUndefined" by simp
      with idem p have "snd p JUndefined = Inr JUndefined" by blast
      moreover from False have "get defaultOptions (fst p) = JUndefined"
        by (auto simp: defaultOptions_def split: if_splits)
      ultimately show ?thesis using True y by (simp add: get_defaults)
    qed
  qed
  have "\<forall>q \<in> set (transformsOf table). has y (fst q) \<longrightarrow> snd q y = Inr y"
    by (auto simp: transformsOf_def optionTransform_def fixed put_same)
  then have "applyTransforms (transformsOf table) y = Inr y" by (rule applyTransforms_stable)
  moreover have "defaults y defaultOptions = y"
    unfolding y by (rule defaults_defined) (simp_all add: get_defaults get_defaultOptions)
  ultimately show ?thesis by (simp add: normalizeOptions_def)
qed


lemma atLeast_idempotent: "atLeast bound v = Inr v' \<Longrightarrow> atLeast bound v' = Inr v'"
  by (cases v) (auto split: if_splits)

text \<open>
  Claim C6. Normalizing normalized options again changes nothing, for every table of
  transforms with distinct names that each rewrite their own option idempotently and
  accept its default value; the defaults \<open>skip = 0\<close>, \<open>remapInput = true\<close> and
  \<open>remapOutput = true\<close> are what the empty options normalize to, whatever the table.
  Normalizing a canonical query returns the query itself, whatever the options.
\<close>

theorem normalize_idempotent:
  "(distinct (map fst table) \<longrightarrow>
    (\<forall>p \<in> set table. \<forall>v v'. snd p v = Inr v' \<longrightarrow> snd p v' = Inr v') \<longrightarrow>
    (\<forall>p \<in> set table. \<forall>d \<in> set defaultOptions. fst d = fst p \<longrightarrow> snd p (snd d) = Inr (snd d)) \<longrightarrow>
    normalizeOptions (transformsOf table) x = Inr y \<longrightarrow>
    normalizeOptions (transformsOf table) y = Inr y)
   \<and> normalizeOptions transforms [] = Inr defaultOptions
   \<and> (canonicalQuery canon q \<longrightarrow> normalizeQuery canon q options = Inr q)"
proof (intro conjI impI)
  show "normalizeOptions transforms [] = Inr defaultOptions"
    by (simp add: normalizeOptions_def applyTransforms_empty defaultOptions_def)
next
  assume "distinct (map fst table)"
    and "\<forall>p \<in> set table. \<forall>v v'. snd p v = Inr v' \<longrightarrow> snd p v' = Inr v'"
    and "\<forall>p \<in> set table. \<forall>d \<in> set defaultOptions. fst d = fst p \<longrightarrow> snd p (snd d) = Inr (snd d)"
    and "normalizeOptions (transformsOf table) x = Inr y"
  then show "normalizeOptions (transformsOf table) y = Inr y"
    by (rule normalizeOptions_twice)
next
  assume "canonicalQuery canon q"
  then show "normalizeQuery canon q options = Inr q"
    by (rule normalizeQuery_canonical)
qed


theorem normalize_idempotent_witness:
  "normalizeOptions (transformsOf QUERY_OPTIONS_TRANSFORMS) [(''limit'', JNum 2)] =
     Inr [(''limit'', JNum 2), (''skip'', JNum 0), (''remapInput'', JBool True),
          (''remapOutput'', JBool True)]
   \<and> normalizeOptions (transformsOf QUERY_OPTIONS_TRANSFORMS)
       [(''limit'', JNum 2), (''skip'', JNum 0), (''remapInput'', JBool True),
        (''remapOutput'', JBool True)] =
     Inr [(''limit'', JNum 2), (''skip'', JNum 0), (''remapInput'', JBool True),
          (''remapOutput'', JBool True)]
   \<and> normalizeQuery CANONICAL_OPERATORS
       (JObj [(''age'', JObj [(''$greater'', JNum 18), (''$diff'', JNum 30)])])
       [(''remapInput'', JBool True)] =
     Inr (JObj [(''age'', JObj [(''$greater'', JNum 18), (''$diff'', JNum 30)])])"
proof -
  have run: "normalizeOptions (transformsOf QUERY_OPTIONS_TRANSFORMS) [(''limit'', JNum 2)] =
     Inr [(''limit'', JNum 2), (''skip'', JNum 0), (''remapInput'', JBool True),
          (''remapOutput'', JBool True)]"
    by (simp add: normalizeOptions_def transformsOf_def QUERY_OPTIONS_TRANSFORMS_def
        optionTransform_def defaultOptions_def has_def)
  have idem: "\<forall>p \<in> set QUERY_OPTIONS_TRANSFORMS. \<forall>v v'. snd p v = Inr v' \<longrightarrow> snd p v' = Inr v'"
    by (auto simp: QUERY_OPTIONS_TRANSFORMS_def dest: atLeast_idempotent)
  have dflt: "\<forall>p \<in> set QUERY_OPTIONS_TRANSFORMS. \<forall>d \<in> set defaultOptions.
      fst d = fst p \<longrightarrow> snd p (snd d) = Inr (snd d)"
    by (simp add: QUERY_OPTIONS_TRANSFORMS_def defaultOptions_def)
  have canonical: "canonicalQuery CANONICAL_OPERATORS
      (JObj [(''age'', JObj [(''$greater'', JNum 18), (''$diff'', JNum 30)])])"
    by (simp add: CANONICAL_OPERATORS_def arithmeticOperators_def)
  have dist: "distinct (map fst QUERY_OPTIONS_TRANSFORMS)"
    by (simp add: QUERY_OPTIONS_TRANSFORMS_def)
  note inst = normalize_idempotent [of QUERY_OPTIONS_TRANSFORMS "[(''limit'', JNum 2)]"
      "[(''limit'', JNum 2), (''skip'', JNum 0), (''remapInput'', JBool True),
        (''remapOutput'', JBool True)]" "[]" CANONICAL_OPERATORS
      "JObj [(''age'', JObj [(''$greater'', JNum 18), (''$diff'', JNum 30)])]"
      "[(''remapInput'', JBool True)]"]
  from inst dist idem dflt run
  have again: "normalizeOptions (transformsOf QUERY_OPTIONS_TRANSFORMS)
       [(''limit'', JNum 2), (''skip'', JNum 0), (''remapInput'', JBool True),
        (''remapOutput'', JBool True)] =
     Inr [(''limit'', JNum 2), (''skip'', JNum 0), (''remapInput'', JBool True),
          (''remapOutput'', JBool True)]"
    by blast
  from inst canonical
  have query: "normalizeQuery CANONICAL_OPERATORS
       (JObj [(''age'', JObj [(''$greater'', JNum 18), (''$diff'', JNum 30)])])
       [(''remapInput'', JBool True)] =
     Inr (JObj [(''age'', JObj [(''$greater'', JNum 18), (''$diff'', JNum 30)])])"
    by blast
  from run again query show ?thesis by blast
qed



section \<open>Properties of the registry\<close>

lemma requireName_string: "requireName classname (JStr s) = Inr ()"
  by (simp add: requireName_def)

lemma registerAdapter_duplicate:
  "adapters d label \<noteq> None \<Longrightarrow> registerAdapter d label adapter = (Inl (AdapterExists label), d)"
  by (simp add: registerAdapter_def)

lemma createNamedDataSource_duplicate:
  "adapters d adapterLabel = Some adapterCtr \<Longrightarrow> adapterCtr (JStr s) = Inr dataSource \<Longrightarrow>
   s \<noteq> [] \<Longrightarrow> dataSources d s \<noteq> None \<Longrightarrow>
   createNamedDataSource loadModule d (JStr s) adapterLabel = (Inl (NameUsed (JStr s)), d)"
  by (simp add: createNamedDataSource_def createDataSource_def requireName_def)

lemma createNamedDataSource_empty:
  "adapters d adapterLabel = Some adapterCtr \<Longrightarrow> adapterCtr (JStr adapterLabel) = Inr dataSource \<Longrightarrow>
   dataSources d [] = None \<Longrightarrow>
   createNamedDataSource loadModule d (JStr []) adapterLabel =
     (Inr dataSource, d\<lparr>dataSources := (dataSources d)([] \<mapsto> dataSource)\<rparr>)"
  by (simp add: createNamedDataSource_def createDataSource_def requireName_def)

text \<open>
  Claim C9 at the empty name. \<open>createNamedDataSource\<close> with the empty string as source
  name throws nothing: it creates the data source and registers it under the empty name.
  The same holds of a name that is a number. The error message of \<open>requireName\<close> asks for
  a non empty string; its test lets both names pass.
\<close>

theorem createNamedDataSource_empty_name_registered:
  "createNamedDataSource (\<lambda>label d. None)
     \<lparr>adapters = [''inMemory'' \<mapsto> (\<lambda>name. Inr name)], dataSources = Map.empty\<rparr>
     (JStr []) ''inMemory'' =
   (Inr (JStr ''inMemory''),
    \<lparr>adapters = [''inMemory'' \<mapsto> (\<lambda>name. Inr name)], dataSources = [[] \<mapsto> JStr ''inMemory'']\<rparr>)
   \<and> \<not> nonEmptyString (JStr [])
   \<and> createNamedDataSource (\<lambda>label d. None)
     \<lparr>adapters = [''inMemory'' \<mapsto> (\<lambda>name. Inr name)], dataSources = Map.empty\<rparr>
     (JNum 7) ''inMemory'' =
   (Inr (JNum 7),
    \<lparr>adapters = [''inMemory'' \<mapsto> (\<lambda>name. Inr name)], dataSources = [''7'' \<mapsto> JNum 7]\<rparr>)
   \<and> \<not> nonEmptyString (JNum 7)"
proof -
  have "decimal 7 = ''7''"
    by code_simp
  then show ?thesis
    by (simp add: createNamedDataSource_def createDataSource_def requireName_def greaterZero_def)
qed

section \<open>Properties of the default insertOne\<close>

text \<open>
  Claim C7. The default \<open>insertOne(table, e)\<close> returns the first element of what the
  adapter's \<open>insertMany(table, [e])\<close> returns, \<open>undefined\<close> when that list is empty, and
  the rejection of \<open>insertMany\<close> when it rejects; the store is left as \<open>insertMany\<close>
  leaves it.
\<close>

theorem insertOne_first:
  "(insertMany table [entity] s = (Inr [], s') \<longrightarrow>
      insertOne insertMany table entity s = (Inr None, s')) \<and>
   (insertMany table [entity] s = (Inr (x # xs), s') \<longrightarrow>
      insertOne insertMany table entity s = (Inr (Some x), s')) \<and>
   (insertMany table [entity] s = (Inl e, s') \<longrightarrow>
      insertOne insertMany table entity s = (Inl e, s')) \<and>
   (\<forall>inserted. insertMany table [entity] s = (Inr inserted, s') \<longrightarrow>
      insertOne insertMany table entity s = (Inr (first inserted), s'))"
  by (simp add: insertOne_def)

theorem insertOne_first_witness:
  "insertOne (\<lambda>table entities s. (Inr (map (\<lambda>e. put e ''id'' (JStr ''u1'')) entities), s @ entities))
     ''users'' [(''name'', JStr ''Alice'')] [] =
     (Inr (Some [(''name'', JStr ''Alice''), (''id'', JStr ''u1'')]), [[(''name'', JStr ''Alice'')]])
   \<and> insertOne (\<lambda>table entities s. (Inr [], s)) ''users'' [(''name'', JStr ''Alice'')] [] =
     (Inr None, ([] :: object list))"
  using insertOne_first [of "\<lambda>table entities s. (Inr (map (\<lambda>e. put e ''id'' (JStr ''u1'')) entities), s @ entities)"
      "''users''" "[(''name'', JStr ''Alice'')]" "[]" "[[(''name'', JStr ''Alice'')]]"
      "[(''name'', JStr ''Alice''), (''id'', JStr ''u1'')]" "[]"]
    insertOne_first [of "\<lambda>table entities s. (Inr [], s)"
      "''users''" "[(''name'', JStr ''Alice'')]" "[] :: object list" "[]"]
  by simp


section \<open>Properties of the life cycle\<close>

lemma length_notify [simp]: "length (notify outcome is ps) = length ps"
  by (induction "is" arbitrary: ps) auto

lemma settle_settle [simp]: "settle outcome (settle outcome p) = settle outcome p"
  by (cases p; cases outcome) auto

lemma notify_nth:
  "j < length ps \<Longrightarrow>
   notify outcome is ps ! j = (if j \<in> set is then settle outcome (ps ! j) else ps ! j)"
proof (induction "is" arbitrary: ps)
  case Nil
  then show ?case by simp
next
  case (Cons i "is")
  then show ?case
    by (cases "i = j") (auto simp: nth_list_update)
qed

lemma consistent_iff:
  "consistent a \<longleftrightarrow>
     (\<forall>i \<in> set (listeners a). i < length (promises a)) \<and>
     (\<forall>i < length (promises a). promises a ! i = Pending \<longrightarrow> i \<in> set (listeners a))"
  by (auto simp: consistent_def list_all_iff)

lemma consistent_newAdapter: "consistent newAdapter"
  by (simp add: consistent_iff newAdapter_def)

lemma consistent_waitReady: "consistent a \<Longrightarrow> consistent (snd (waitReady a))"
  by (auto simp: consistent_iff waitReady_def Let_def nth_append less_Suc_eq)

lemma consistent_emitReady: "consistent a \<Longrightarrow> consistent (emitReady a)"
  by (auto simp: consistent_iff emitReady_def notify_nth split: if_splits)

lemma consistent_emitError: "consistent a \<Longrightarrow> consistent (snd (emitError err a))"
  by (simp add: consistent_iff emitError_def)

lemma pending_settled:
  "consistent a \<Longrightarrow> i < length (promises a) \<Longrightarrow> promises a ! i = Pending \<Longrightarrow>
   notify outcome (listeners a) (promises a) ! i = outcome"
  by (simp add: consistent_iff notify_nth)

text \<open>
  What holds of \<open>waitReady\<close> on an adapter reached from the constructor: the promise is
  resolved at once when the state is \<open>READY\<close>, rejected at once with the value of
  \<open>this.error\<close> when the state is \<open>ERROR\<close>, and pending otherwise; the pending promise
  stays pending under further calls of \<open>waitReady\<close> and is resolved by the \<open>ready\<close>
  event, which resolves every pending promise and a call that follows it.
\<close>

lemma waitReady_ready_path:
  "consistent a \<Longrightarrow>
   (state a = READY \<longrightarrow> promises (snd (waitReady a)) ! fst (waitReady a) = Resolved) \<and>
   (state a = ERROR \<longrightarrow> promises (snd (waitReady a)) ! fst (waitReady a) = Rejected (error a)) \<and>
   (state a = PREPARING \<longrightarrow>
      promises (snd (waitReady a)) ! fst (waitReady a) = Pending \<and>
      promises (snd (waitReady (snd (waitReady a)))) ! fst (waitReady a) = Pending \<and>
      promises (emitReady (snd (waitReady a))) ! fst (waitReady a) = Resolved) \<and>
   (\<forall>i < length (promises a). promises a ! i = Pending \<longrightarrow>
      promises (emitReady a) ! i = Resolved) \<and>
   promises (snd (waitReady (emitReady a))) ! fst (waitReady (emitReady a)) = Resolved"
proof (intro conjI impI allI)
  assume c: "consistent a"
  show "promises (snd (waitReady (emitReady a))) ! fst (waitReady (emitReady a)) = Resolved"
    by (simp add: waitReady_def emitReady_def Let_def nth_append)
  {
    assume "state a = READY"
    then show "promises (snd (waitReady a)) ! fst (waitReady a) = Resolved"
      by (simp add: waitReady_def Let_def)
  }
  {
    assume "state a = ERROR"
    then show "promises (snd (waitReady a)) ! fst (waitReady a) = Rejected (error a)"
      by (simp add: waitReady_def Let_def)
  }
  {
    fix i assume "i < length (promises a)" "promises a ! i = Pending"
    with c show "promises (emitReady a) ! i = Resolved"
      by (simp add: emitReady_def pending_settled)
  }
  assume p: "state a = PREPARING"
  let ?i = "fst (waitReady a)" and ?a = "snd (waitReady a)"
  from p have i: "?i = length (promises a)"
    and a': "?a = a\<lparr>promises := promises a @ [Pending], listeners := listeners a @ [length (promises a)]\<rparr>"
    by (simp_all add: waitReady_def Let_def)
  from c have c': "consistent ?a" by (rule consistent_waitReady)
  have pend: "promises ?a ! ?i = Pending" and len: "?i < length (promises ?a)"
    by (simp_all add: i a')
  show "promises ?a ! ?i = Pending" by (rule pend)
  from p show "promises (snd (waitReady ?a)) ! ?i = Pending"
    by (simp add: a' i waitReady_def Let_def nth_append)
  from c' len pend show "promises (emitReady ?a) ! ?i = Resolved"
    by (simp add: emitReady_def pending_settled)
qed

text \<open>
  The \<open>error\<close> event on any adapter: the state becomes \<open>ERROR\<close>, the stored error and
  the promises are what they were, and the \<open>waitReady\<close> that follows is rejected with the
  value \<open>this.error\<close> had before the event.
\<close>

lemma emitError_stores_nothing:
  "fst (emitError err a) = Inl NativeTypeError \<and>
   state (snd (emitError err a)) = ERROR \<and>
   error (snd (emitError err a)) = error a \<and>
   promises (snd (emitError err a)) = promises a \<and>
   promises (snd (waitReady (snd (emitError err a)))) !
     fst (waitReady (snd (emitError err a))) = Rejected (error a)"
  by (simp add: emitError_def waitReady_def Let_def)

text \<open>
  Claim C8 at a failed setup. An adapter is constructed, a caller waits, and the \<open>error\<close>
  event fires with a setup error: the pending promise stays pending, no error is stored,
  and a later \<open>waitReady\<close> is rejected with \<open>undefined\<close>. Had the handlers run as they
  are written to, the pending promise would be rejected with the setup error.
\<close>

theorem setup_error_not_surfaced:
  "snd (emitError (CouldNotLoad ''db'') (snd (waitReady newAdapter))) =
     \<lparr>state = ERROR, error = None, promises = [Pending], listeners = [0]\<rparr>
   \<and> promises (snd (waitReady (snd (emitError (CouldNotLoad ''db'') (snd (waitReady newAdapter)))))) =
       [Pending, Rejected None]
   \<and> promises (emitError_spec (CouldNotLoad ''db'') (snd (waitReady newAdapter))) =
       [Rejected (Some (CouldNotLoad ''db''))]"
  by (simp add: waitReady_def newAdapter_def emitError_def emitError_spec_def Let_def)


section \<open>Properties of the default findOne, deleteOne and updateOne\<close>

lemma optionOf_assign:
  "options < length (fst w) \<Longrightarrow> optionOf (assign w options k v) options k = v"
  by (simp add: optionOf_def assign_def get_put)

lemma findOne_world:
  "snd (findOne findMany table queryFind options w) =
   snd (findMany table queryFind options (assign w options ''limit'' (JNum 1)))"
  by (simp add: findOne_def split: prod.splits sum.splits)

lemma updateOne_world:
  "normalizeOptions transforms (fst w ! options) = Inr normalized \<Longrightarrow>
   snd (updateOne transforms updateMany table queryFind update options w) =
   snd (updateMany table queryFind update (length (fst w))
          (fst w @ [put normalized ''limit'' (JNum 1)], snd w))"
  by (simp add: updateOne_def alloc_def assign_def split: prod.splits sum.splits)

text \<open>
  Claim C10. The default \<open>findOne\<close> and \<open>deleteOne\<close> assign \<open>limit = 1\<close> on the
  options object of the caller and pass that same object on: when the adapter's
  \<open>findMany\<close> (\<open>deleteMany\<close>) does not assign the limit itself, the caller's object has
  \<open>limit = 1\<close> after the call. The default \<open>updateOne\<close> passes to \<open>updateMany\<close> a new
  object, the normalized copy with \<open>limit = 1\<close>: when \<open>updateMany\<close> leaves the objects
  alone that it is not given, the caller's object is after the call what it was before.
\<close>

theorem one_methods_limit:
  "options < length (fst w) \<Longrightarrow>
   ((\<forall>w0. optionOf (snd (findMany table queryFind options w0)) options ''limit'' =
           optionOf w0 options ''limit'') \<longrightarrow>
      optionOf (snd (findOne findMany table queryFind options w)) options ''limit'' = JNum 1) \<and>
   ((\<forall>w0. optionOf (snd (deleteMany' table queryFind options w0)) options ''limit'' =
           optionOf w0 options ''limit'') \<longrightarrow>
      optionOf (snd (deleteOne deleteMany' table queryFind options w)) options ''limit'' = JNum 1) \<and>
   ((\<forall>options' w0. options' \<noteq> options \<longrightarrow>
        fst (snd (updateMany table queryFind update options' w0)) ! options = fst w0 ! options) \<longrightarrow>
      fst (snd (updateOne transforms updateMany table queryFind update options w)) ! options =
        fst w ! options) \<and>
   (\<forall>normalized. normalizeOptions transforms (fst w ! options) = Inr normalized \<longrightarrow>
      snd (updateOne transforms updateMany table queryFind update options w) =
      snd (updateMany table queryFind update (length (fst w))
             (fst w @ [put normalized ''limit'' (JNum 1)], snd w)))"
proof (intro conjI impI allI)
  assume valid: "options < length (fst w)"
  {
    assume "\<forall>w0. optionOf (snd (findMany table queryFind options w0)) options ''limit'' =
           optionOf w0 options ''limit''"
    then have "optionOf (snd (findMany table queryFind options (assign w options ''limit'' (JNum 1))))
        options ''limit'' = optionOf (assign w options ''limit'' (JNum 1)) options ''limit''"
      by blast
    with valid show "optionOf (snd (findOne findMany table queryFind options w)) options ''limit'' = JNum 1"
      by (simp only: findOne_world optionOf_assign)
  }
  {
    assume "\<forall>w0. optionOf (snd (deleteMany' table queryFind options w0)) options ''limit'' =
           optionOf w0 options ''limit''"
    then have "optionOf (snd (deleteMany' table queryFind options (assign w options ''limit'' (JNum 1))))
        options ''limit'' = optionOf (assign w options ''limit'' (JNum 1)) options ''limit''"
      by blast
    with valid show "optionOf (snd (deleteOne deleteMany' table queryFind options w)) options ''limit'' = JNum 1"
      by (simp only: deleteOne_def optionOf_assign)
  }
  {
    assume frame: "\<forall>options' w0. options' \<noteq> options \<longrightarrow>
        fst (snd (updateMany table queryFind update options' w0)) ! options = fst w0 ! options"
    show "fst (snd (updateOne transforms updateMany table queryFind update options w)) ! options =
        fst w ! options"
    proof (cases "normalizeOptions transforms (fst w ! options)")
      case (Inl e)
      then show ?thesis by (simp add: updateOne_def)
    next
      case (Inr normalized)
      from valid have "length (fst w) \<noteq> options" by simp
      with frame have "fst (snd (updateMany table queryFind update (length (fst w))
          (fst w @ [put normalized ''limit'' (JNum 1)], snd w))) ! options =
          fst (fst w @ [put normalized ''limit'' (JNum 1)], snd w) ! options"
        by blast
      with valid show ?thesis
        by (simp add: updateOne_world [OF Inr] nth_append)
    qed
  }
  fix normalized
  assume "normalizeOptions transforms (fst w ! options) = Inr normalized"
  then show "snd (updateOne transforms updateMany table queryFind update options w) =
      snd (updateMany table queryFind update (length (fst w))
             (fst w @ [put normalized ''limit'' (JNum 1)], snd w))"
    by (rule updateOne_world)
qed

theorem one_methods_limit_witness:
  "snd (findOne (\<lambda>table queryFind options w. (Inr [], w)) ''users'' (JObj []) 0
        ([[(''limit'', JNum 5)]], ())) = ([[(''limit'', JNum 1)]], ())
   \<and> snd (deleteOne (\<lambda>table queryFind options w. (Inr (), w)) ''users'' (JObj []) 0
        ([[(''skip'', JNum 2)]], ())) = ([[(''skip'', JNum 2), (''limit'', JNum 1)]], ())
   \<and> snd (updateOne [] (\<lambda>table queryFind update options w. (Inr [], w)) ''users'' (JObj []) [] 0
        ([[(''limit'', JNum 5)]], ())) =
      ([[(''limit'', JNum 5)],
        [(''limit'', JNum 1), (''skip'', JNum 0), (''remapInput'', JBool True),
         (''remapOutput'', JBool True)]], ())"
  using one_methods_limit [of 0 "([[(''limit'', JNum 5)]], ())"
      "\<lambda>table queryFind options w. (Inr [], w)" "''users''" "JObj []"
      "\<lambda>table queryFind options w. (Inr (), w)"
      "\<lambda>table queryFind update options w. (Inr [], w)" "[]" "[]"]
  by (simp add: findOne_def deleteOne_def updateOne_def assign_def alloc_def optionOf_def
      normalizeOptions_def defaultOptions_def)
section \<open>Properties of the default deleteMany over the web storage methods\<close>

lemma getItemName_inject [simp]:
  "getItemName table (JStr i) = getItemName table (JStr j) \<longleftrightarrow> i = j"
  by (simp add: getItemName_def)

lemma scanItems_skip:
  "m \<le> S \<Longrightarrow>
   scanItems ops table queryFind (JNum (int S)) st itemIds (int m) =
     (case drop (S - m) (filter (matchesItem ops table queryFind st) itemIds) of
        [] \<Rightarrow> None
      | itemId # others \<Rightarrow> entries st (getItemName table (JStr itemId)))"
proof (induction itemIds arbitrary: m)
  case Nil
  then show ?case by simp
next
  case (Cons itemId itemIds)
  show ?case
  proof (cases "matchesItem ops table queryFind st itemId")
    case False
    with Cons show ?thesis
      by (auto simp: matchesItem_def split: option.splits)
  next
    case True
    then obtain item where item: "entries st (getItemName table (JStr itemId)) = Some item"
      and match: "matchEntity ops queryFind item"
      by (auto simp: matchesItem_def split: option.splits)
    show ?thesis
    proof (cases "m = S")
      case True
      with item match \<open>matchesItem ops table queryFind st itemId\<close> show ?thesis
        by (simp add: numberGreater_def)
    next
      case False
      with Cons.prems have less: "Suc m \<le> S" by simp
      then have step: "S - m = Suc (S - Suc m)" by simp
      have ih: "scanItems ops table queryFind (JNum (int S)) st itemIds (int m + 1) =
          (case drop (S - Suc m) (filter (matchesItem ops table queryFind st) itemIds) of
             [] \<Rightarrow> None
           | itemId # others \<Rightarrow> entries st (getItemName table (JStr itemId)))"
        using Cons.IH [OF less] by (simp add: add.commute)
      from less item match \<open>matchesItem ops table queryFind st itemId\<close>
      show ?thesis
        by (simp add: numberGreater_def step ih)
    qed
  qed
qed

lemma ensureCollectionExists_eq:
  "ensureCollectionExists table st = (indexOf st table, ensured table st)"
  by (simp add: ensureCollectionExists_def ensured_def indexOf_def split: option.splits)

lemma ensured_facts [simp]:
  "indexOf (ensured table st) table = indexOf st table"
  "entries (ensured table st) = entries st"
  "ensured table (ensured table st) = ensured table st"
  "indexes (ensured table st) table = Some (indexOf st table)"
  by (simp_all add: ensured_def ensureCollectionExists_def indexOf_def split: option.splits)

lemma matchesItem_ensured [simp]:
  "matchesItem ops table queryFind (ensured table st) = matchesItem ops table queryFind st"
  by (simp add: matchesItem_def fun_eq_iff)

lemma matching_ensured [simp]:
  "matching ops table queryFind (ensured table st) = matching ops table queryFind st"
  by (simp add: matching_def)

lemma wellFormed_ensured [simp]: "wellFormed table (ensured table st) = wellFormed table st"
  by (simp add: wellFormed_def)

lemma wsFindOne_scan:
  assumes "options < length heap" and "get (heap ! options) ''skip'' = JNum (int S)"
    and "isObject queryFind" and "\<not> searchesById queryFind"
  shows "wsFindOne ops table queryFind options (heap, st) =
     (Inr (case drop S (matching ops table queryFind st) of
             [] \<Rightarrow> None
           | itemId # others \<Rightarrow> entries st (getItemName table (JStr itemId))),
      (heap, ensured table st))"
  using assms scanItems_skip [of 0 S ops table queryFind "ensured table st" "indexOf st table"]
  by (simp add: wsFindOne_def Let_def ensureCollectionExists_eq optionOf_def matching_def
      split: list.splits)

lemma wsDeleteOne_scan:
  assumes "options < length heap" and "get (heap ! options) ''skip'' = JNum (int S)"
    and "isObject queryFind" and "\<not> searchesById queryFind"
    and "wellFormed table st" and "drop S (matching ops table queryFind st) = itemId # others"
  shows "wsDeleteOne ops table queryFind options (heap, st) =
     (Inr (), (heap, removed table itemId (ensured table st)))"
proof -
  from assms(6) have "itemId \<in> set (drop S (matching ops table queryFind st))" by simp
  then have "itemId \<in> set (matching ops table queryFind st)" by (rule in_set_dropD)
  then have mem: "itemId \<in> set (indexOf st table)" and m: "matchesItem ops table queryFind st itemId"
    by (simp_all add: matching_def)
  from m obtain item where item: "entries st (getItemName table (JStr itemId)) = Some item"
    by (auto simp: matchesItem_def split: option.splits)
  with assms(5) mem have id: "get item ''id'' = JStr itemId"
    by (auto simp: wellFormed_def list_all_iff)
  show ?thesis
    by (simp add: wsDeleteOne_def wsFindOne_scan [OF assms(1-4)] assms(6) item id
        ensureCollectionExists_eq removed_def)
qed

lemma removed_facts:
  "indexOf (removed table itemId st) table = filter (\<lambda>i. i \<noteq> itemId) (indexOf st table)"
  "entries (removed table itemId st) (getItemName table (JStr i)) =
     (if i = itemId then None else entries st (getItemName table (JStr i)))"
  by (simp_all add: removed_def indexOf_def)

lemma wellFormed_removed: "wellFormed table st \<Longrightarrow> wellFormed table (removed table itemId st)"
  by (auto simp: wellFormed_def removed_facts list_all_iff)

lemma matching_removed:
  "matching ops table queryFind (removed table itemId st) =
     filter (\<lambda>i. i \<noteq> itemId) (matching ops table queryFind st)"
proof -
  have same: "matchesItem ops table queryFind (removed table itemId st) i =
      matchesItem ops table queryFind st i" if "i \<noteq> itemId" for i
    using that by (simp add: matchesItem_def removed_facts)
  show ?thesis
    unfolding matching_def removed_facts filter_filter
    by (rule filter_cong) (auto simp: same)
qed

lemma distinct_matching: "wellFormed table st \<Longrightarrow> distinct (matching ops table queryFind st)"
  by (simp add: wellFormed_def matching_def)

lemma filter_out_at:
  assumes "distinct xs" and "drop S xs = x # rest"
  shows "filter (\<lambda>i. i \<noteq> x) xs = take S xs @ rest" and "drop S (take S xs @ rest) = rest"
proof -
  have xs: "xs = take S xs @ x # rest"
    using assms(2) by (metis append_take_drop_id)
  with assms(1) have "distinct (take S xs @ x # rest)" by simp
  then have out: "x \<notin> set (take S xs)" "x \<notin> set rest" by auto
  have "filter (\<lambda>i. i \<noteq> x) xs = filter (\<lambda>i. i \<noteq> x) (take S xs @ x # rest)"
    using xs by simp
  also have "\<dots> = take S xs @ rest"
  proof -
    have keep: "filter (\<lambda>i. i \<noteq> x) ys = ys" if "x \<notin> set ys" for ys
      using that by (auto simp: filter_id_conv)
    show ?thesis by (simp add: keep out)
  qed
  finally show "filter (\<lambda>i. i \<noteq> x) xs = take S xs @ rest" .
  from assms(2) have "S < length xs" by (cases "S < length xs") auto
  then show "drop S (take S xs @ rest) = rest" by simp
qed

lemma filter_out_range:
  assumes "distinct xs"
  shows "filter (\<lambda>i. i \<notin> set (take k (drop S xs))) xs = take S xs @ drop (S + k) xs"
proof -
  let ?A = "take S xs" and ?B = "take k (drop S xs)" and ?C = "drop (S + k) xs"
  have C: "?C = drop k (drop S xs)" by (simp add: add.commute)
  have "?B @ ?C = drop S xs" unfolding C by (rule append_take_drop_id)
  then have xs: "xs = ?A @ ?B @ ?C" by (simp only: append_take_drop_id)
  with assms have "distinct (?A @ ?B @ ?C)" by simp
  then have disjoint: "set ?A \<inter> set ?B = {}" "set ?B \<inter> set ?C = {}" by auto
  have keep: "filter (\<lambda>i. i \<notin> set ?B) ys = ys" if "set ys \<inter> set ?B = {}" for ys
    using that by (auto simp: filter_id_conv)
  have "filter (\<lambda>i. i \<notin> set ?B) ?A = ?A" "filter (\<lambda>i. i \<notin> set ?B) ?C = ?C"
    using disjoint by (auto intro!: keep)
  moreover have "filter (\<lambda>i. i \<notin> set ?B) ?B = []"
    by (simp add: filter_empty_conv)
  ultimately have "filter (\<lambda>i. i \<notin> set ?B) (?A @ ?B @ ?C) = ?A @ ?C"
    by (simp only: filter_append append_Nil)
  with xs show ?thesis by simp
qed

lemma ensured_removed [simp]: "ensured table (removed table itemId st) = removed table itemId st"
  by (simp add: ensured_def ensureCollectionExists_def removed_def)

lemma logged_eq:
  "logged entry f table queryFind options (heap, (st, log)) =
     (case f table queryFind options (heap, st) of
        (r, w') \<Rightarrow> (r, (fst w', (snd w', log @ [entry r]))))"
  by (simp add: logged_def)

lemma calls_Suc:
  "[FindOneCall True, DeleteOneCall] @ calls deleted found = calls (Suc deleted) found"
  by (simp add: calls_def)

lemma loopFind_scan:
  assumes valid: "options < length heap"
    and skip: "get (heap ! options) ''skip'' = JNum (int S)"
    and limit: "get (heap ! options) ''limit'' = JNum (int L)"
    and obj: "isObject queryFind" and scan: "\<not> searchesById queryFind"
  shows "wellFormed table st \<Longrightarrow> drop S (matching ops table queryFind st) = rest \<Longrightarrow> count \<le> L \<Longrightarrow>
    loopFind (logged foundEntry (wsFindOne ops)) (logged deletedEntry (wsDeleteOne ops))
      table queryFind options count (heap, (st, log)) =
    Some (Inr (), (heap, (fold (removed table) (take (L - count) rest) (ensured table st),
                          log @ calls (min (L - count) (length rest)) (L - count < length rest))))"
proof (induction rest arbitrary: st count log)
  case Nil
  then show ?case
    by (subst loopFind.simps)
      (simp add: logged_eq wsFindOne_scan [OF valid skip obj scan] calls_def)
next
  case (Cons itemId others)
  from Cons.prems(2) have "itemId \<in> set (drop S (matching ops table queryFind st))" by simp
  then have "itemId \<in> set (matching ops table queryFind st)" by (rule in_set_dropD)
  then have "matchesItem ops table queryFind st itemId" by (simp add: matching_def)
  then obtain item where item: "entries st (getItemName table (JStr itemId)) = Some item"
    by (auto simp: matchesItem_def split: option.splits)
  have find: "logged foundEntry (wsFindOne ops) table queryFind options (heap, (st, log)) =
      (Inr (Some item), (heap, (ensured table st, log @ [FindOneCall True])))"
    by (simp add: logged_eq wsFindOne_scan [OF valid skip obj scan] Cons.prems(2) item)
  show ?case
  proof (cases "count = L")
    case True
    then show ?thesis
      by (subst loopFind.simps) (simp add: find optionOf_def limit calls_def)
  next
    case False
    with Cons.prems(3) have less: "count < L" by simp
    have wf': "wellFormed table (ensured table st)"
      and m': "drop S (matching ops table queryFind (ensured table st)) = itemId # others"
      using Cons.prems by simp_all
    have delete: "logged deletedEntry (wsDeleteOne ops) table queryFind options
        (heap, (ensured table st, log @ [FindOneCall True])) =
      (Inr (), (heap, (removed table itemId (ensured table st),
                       (log @ [FindOneCall True]) @ [DeleteOneCall])))"
      by (simp add: logged_eq wsDeleteOne_scan [OF valid skip obj scan wf' m'] deletedEntry_def)
    have wf2: "wellFormed table (removed table itemId (ensured table st))"
      using wf' by (rule wellFormed_removed)
    have m2: "drop S (matching ops table queryFind (removed table itemId (ensured table st))) = others"
      unfolding matching_removed
      using filter_out_at [OF distinct_matching [OF wf'] m'] by simp
    from less have c2: "count + 1 \<le> L" by simp
    from less have take: "take (L - count) (itemId # others) = itemId # take (L - (count + 1)) others"
    proof -
      from less have "L - count = Suc (L - (count + 1))" by simp
      then show ?thesis by (simp only: take_Suc_Cons)
    qed
    from less have num: "min (L - count) (length (itemId # others)) =
        Suc (min (L - (count + 1)) (length others))"
      and flag: "(L - count < length (itemId # others)) = (L - (count + 1) < length others)"
      by auto
    have "loopFind (logged foundEntry (wsFindOne ops)) (logged deletedEntry (wsDeleteOne ops))
        table queryFind options count (heap, (st, log)) =
      loopFind (logged foundEntry (wsFindOne ops)) (logged deletedEntry (wsDeleteOne ops))
        table queryFind options (count + 1)
        (heap, (removed table itemId (ensured table st), (log @ [FindOneCall True]) @ [DeleteOneCall]))"
      using False by (subst loopFind.simps) (simp add: find delete optionOf_def limit)
    also have "\<dots> = Some (Inr (), (heap,
        (fold (removed table) (take (L - (count + 1)) others)
           (ensured table (removed table itemId (ensured table st))),
         ((log @ [FindOneCall True]) @ [DeleteOneCall]) @
           calls (min (L - (count + 1)) (length others)) (L - (count + 1) < length others))))"
      by (rule Cons.IH [OF wf2 m2 c2])
    finally show ?thesis
      by (simp only: take num flag fold_Cons ensured_removed comp_apply append_assoc append_Cons
          append_Nil calls_Suc [symmetric])
  qed
qed

lemma indexOf_fold_removed:
  "indexOf (fold (removed table) gone st) table = filter (\<lambda>i. i \<notin> set gone) (indexOf st table)"
  by (induction gone arbitrary: st) (simp_all add: removed_facts conj_commute)

lemma entries_fold_removed:
  "entries (fold (removed table) gone st) (getItemName table (JStr i)) =
     (if i \<in> set gone then None else entries st (getItemName table (JStr i)))"
  by (induction gone arbitrary: st) (auto simp: removed_facts)

lemma matching_fold_removed:
  "matching ops table queryFind (fold (removed table) gone st) =
     filter (\<lambda>i. i \<notin> set gone) (matching ops table queryFind st)"
  by (induction gone arbitrary: st) (simp_all add: matching_removed conj_commute)

lemma wsFindOne_byId:
  assumes "options < length heap" and "get (heap ! options) ''skip'' \<noteq> JUndefined"
    and "searchedId queryFind = Some itemId"
  shows "wsFindOne ops table queryFind options (heap, st) =
     (Inr (entries st (getItemName table itemId)), (heap, st))"
  using assms
  by (auto simp: wsFindOne_def Let_def searchedId_def findOneById_def split: if_splits)

lemma loopFind_byId_none:
  assumes "options < length heap" and "get (heap ! options) ''skip'' \<noteq> JUndefined"
    and "searchedId queryFind = Some itemId"
    and "entries st (getItemName table itemId) = None"
  shows "loopFind (logged foundEntry (wsFindOne ops)) (logged deletedEntry (wsDeleteOne ops))
      table queryFind options count (heap, (st, log)) =
    Some (Inr (), (heap, (st, log @ [FindOneCall False])))"
  by (subst loopFind.simps) (simp add: logged_eq wsFindOne_byId [OF assms(1-3)] assms(4))

text \<open>
  A query that \<open>findOne\<close> looks up by id is not matched against the items: whatever
  \<open>options.skip\<close> is, the item stored under the id is found, and is deleted when the
  limit is not \<open>0\<close>, whether the matcher would accept it or not.
\<close>

lemma deleteMany_byId:
  assumes valid: "options < length heap"
    and skip: "get (heap ! options) ''skip'' \<noteq> JUndefined"
    and limit: "get (heap ! options) ''limit'' = JNum (int L)"
    and byId: "searchedId queryFind = Some itemId"
    and own: "\<forall>item. entries st (getItemName table itemId) = Some item \<longrightarrow>
        toStr (get item ''id'') = toStr itemId"
    and n: "n = (if entries st (getItemName table itemId) = None then 0 else 1)"
  shows "\<exists>st'. deleteMany (logged foundEntry (wsFindOne ops)) (logged deletedEntry (wsDeleteOne ops))
        table queryFind options (heap, (st, [])) =
      Some (Inr (), (heap, (st', calls (min L n) (L < n)))) \<and>
      (0 < min L n \<longrightarrow> entries st' (getItemName table itemId) = None) \<and>
      (min L n = 0 \<longrightarrow> st' = st)"
proof (cases "entries st (getItemName table itemId)")
  case None
  with n have "n = 0" by simp
  with loopFind_byId_none [OF valid skip byId None, of ops 0 "[]"] show ?thesis
    by (simp add: deleteMany_def calls_def)
next
  case (Some item)
  with n have n1: "n = 1" by simp
  from own Some have key: "getItemName table (get item ''id'') = getItemName table itemId"
    by (simp add: getItemName_def)
  have find: "logged foundEntry (wsFindOne ops) table queryFind options (heap, (st, [])) =
      (Inr (Some item), (heap, (st, [FindOneCall True])))"
    by (simp add: logged_eq wsFindOne_byId [OF valid skip byId] Some)
  show ?thesis
  proof (cases "L = 0")
    case True
    with n1 show ?thesis
      unfolding deleteMany_def
      by (subst loopFind.simps) (simp add: find optionOf_def limit calls_def)
  next
    case False
    define st' where "st' = (ensured table st)
        \<lparr>indexes := (indexes (ensured table st))
           (table \<mapsto> filter (\<lambda>i. JStr i \<noteq> get item ''id'') (indexOf st table)),
         entries := (entries st)(getItemName table itemId := None)\<rparr>"
    have gone: "entries st' (getItemName table itemId) = None"
      by (simp add: st'_def)
    have delete: "logged deletedEntry (wsDeleteOne ops) table queryFind options
        (heap, (st, [FindOneCall True])) =
      (Inr (), (heap, (st', [FindOneCall True, DeleteOneCall])))"
      by (simp add: logged_eq wsDeleteOne_def wsFindOne_byId [OF valid skip byId] Some key
          ensureCollectionExists_eq deletedEntry_def st'_def)
    have "deleteMany (logged foundEntry (wsFindOne ops)) (logged deletedEntry (wsDeleteOne ops))
        table queryFind options (heap, (st, [])) =
      loopFind (logged foundEntry (wsFindOne ops)) (logged deletedEntry (wsDeleteOne ops))
        table queryFind options 1 (heap, (st', [FindOneCall True, DeleteOneCall]))"
      unfolding deleteMany_def using False
      by (subst loopFind.simps) (simp add: find delete optionOf_def limit)
    also have "\<dots> = Some (Inr (), (heap, (st', [FindOneCall True, DeleteOneCall] @ [FindOneCall False])))"
      by (rule loopFind_byId_none [OF valid skip byId gone])
    finally have run: "deleteMany (logged foundEntry (wsFindOne ops))
        (logged deletedEntry (wsDeleteOne ops)) table queryFind options (heap, (st, [])) =
      Some (Inr (), (heap, (st', calls 1 False)))"
      by (simp add: calls_def)
    from False n1 have "min L n = 1" and "\<not> L < n" by simp_all
    with run gone show ?thesis by auto
  qed
qed


lemma searchedId_None: "searchedId queryFind = None \<longleftrightarrow> isObject queryFind \<and> \<not> searchesById queryFind"
  by (simp add: searchedId_def)

text \<open>
  Claim C2, as the code has it. The default \<open>deleteMany\<close>, over the \<open>findOne\<close> and
  \<open>deleteOne\<close> of the web storage adapter, with options that have \<open>skip = S\<close> and
  \<open>limit = L\<close>, for a query that \<open>findOne\<close> matches against the items, on a well formed
  table with \<open>N\<close> matching items: the loop ends and exactly \<open>min L (N - S)\<close> items are
  deleted (none when \<open>S\<close> is \<open>N\<close> or more), the matching items that follow the first \<open>S\<close>;
  they are removed from the index and from the store, the other items stay, and the
  remaining matches are still found. The calls are one \<open>findOne\<close> and one \<open>deleteOne\<close>
  in turn for each deleted item and then a last \<open>findOne\<close>, after which nothing is
  called; that last call finds nothing unless the limit was reached first. With
  \<open>skip = 0\<close> the number of deleted items is \<open>min L N\<close>.
\<close>

theorem deleteMany_limit:
  assumes valid: "options < length heap"
    and skip: "get (heap ! options) ''skip'' = JNum (int S)"
    and limit: "get (heap ! options) ''limit'' = JNum (int L)"
    and scan: "searchedId queryFind = None"
    and wf: "wellFormed table st"
    and M: "M = matching ops table queryFind st"
    and k: "k = min L (length M - S)"
  shows "\<exists>st'. deleteMany (logged foundEntry (wsFindOne ops)) (logged deletedEntry (wsDeleteOne ops))
            table queryFind options (heap, (st, [])) =
          Some (Inr (), (heap, (st', calls k (S + L < length M)))) \<and>
          matching ops table queryFind st' = take S M @ drop (S + k) M \<and>
          length (matching ops table queryFind st') = length M - k \<and>
          length (take k (drop S M)) = k \<and>
          indexOf st' table = filter (\<lambda>i. i \<notin> set (take k (drop S M))) (indexOf st table) \<and>
          (\<forall>i. entries st' (getItemName table (JStr i)) =
               (if i \<in> set (take k (drop S M)) then None
                else entries st (getItemName table (JStr i)))) \<and>
          (S = 0 \<longrightarrow> k = min L (length M))"
proof -
  from scan have obj: "isObject queryFind" and noId: "\<not> searchesById queryFind"
    by (simp_all add: searchedId_None)
  let ?gone = "take k (drop S M)"
  let ?st = "fold (removed table) ?gone (ensured table st)"
  have tk: "take L (drop S M) = ?gone"
    by (simp add: k min_def)
  have flag: "(L < length M - S) = (S + L < length M)" by auto
  from loopFind_scan [OF valid skip limit obj noId wf refl, of 0 ops "[]"]
  have run: "deleteMany (logged foundEntry (wsFindOne ops)) (logged deletedEntry (wsDeleteOne ops))
        table queryFind options (heap, (st, [])) =
      Some (Inr (), (heap, (?st, calls k (S + L < length M))))"
    by (simp add: deleteMany_def M [symmetric] tk k flag)
  have dist: "distinct M" unfolding M using wf by (rule distinct_matching)
  have m: "matching ops table queryFind ?st = take S M @ drop (S + k) M"
    by (simp add: matching_fold_removed M [symmetric] filter_out_range [OF dist])
  have len: "length (take S M @ drop (S + k) M) = length M - k"
    by (auto simp: k min_def)
  have "length (matching ops table queryFind ?st) = length M - k"
    by (simp only: m len)
  moreover have "length ?gone = k" by (auto simp: k min_def)
  moreover have "indexOf ?st table = filter (\<lambda>i. i \<notin> set ?gone) (indexOf st table)"
    by (simp add: indexOf_fold_removed)
  moreover have "\<forall>i. entries ?st (getItemName table (JStr i)) =
      (if i \<in> set ?gone then None else entries st (getItemName table (JStr i)))"
    by (simp add: entries_fold_removed)
  moreover have "S = 0 \<longrightarrow> k = min L (length M)" by (simp add: k)
  ultimately show ?thesis using run m by blast
qed

theorem deleteMany_limit_witness:
  "\<exists>st'. deleteMany (logged foundEntry (wsFindOne (OPERATORS plainTest)))
           (logged deletedEntry (wsDeleteOne (OPERATORS plainTest)))
           ''users'' exampleQuery 0 ([exampleOptions], (exampleStorage, [])) =
         Some (Inr (), ([exampleOptions],
                 (st', [FindOneCall True, DeleteOneCall, FindOneCall True, DeleteOneCall,
                        FindOneCall True]))) \<and>
         matching (OPERATORS plainTest) ''users'' exampleQuery st' = [''d'', ''e'', ''f''] \<and>
         indexOf st' ''users'' = [''b'', ''d'', ''e'', ''f'']"
proof -
  have found: "matching (OPERATORS plainTest) ''users'' exampleQuery exampleStorage =
      [''a'', ''c'', ''d'', ''e'', ''f'']"
    by (simp add: matching_def matchesItem_def indexOf_def exampleStorage_def exampleQuery_def
        getItemName_def matchEntity_def matchField_def matchOperation_def OPERATORS_def
        compareNum_def)
  have idx: "indexOf exampleStorage ''users'' = [''a'', ''b'', ''c'', ''d'', ''e'', ''f'']"
    by (simp add: indexOf_def exampleStorage_def)
  have wf: "wellFormed ''users'' exampleStorage"
    unfolding wellFormed_def idx by (simp add: exampleStorage_def getItemName_def)
  have scan: "searchedId exampleQuery = None"
    by (simp add: searchedId_def searchesById_def exampleQuery_def)
  have valid: "0 < length [exampleOptions]"
    and skip: "get ([exampleOptions] ! 0) ''skip'' = JNum (int 0)"
    and limit: "get ([exampleOptions] ! 0) ''limit'' = JNum (int 2)"
    by (simp_all add: exampleOptions_def)
  have k: "Suc (Suc 0) = min 2 (length [''a'', ''c'', ''d'', ''e'', ''f''] - 0)"
    by simp
  from deleteMany_limit [OF valid skip limit scan wf found [symmetric] k]
  obtain st' where run: "deleteMany (logged foundEntry (wsFindOne (OPERATORS plainTest)))
        (logged deletedEntry (wsDeleteOne (OPERATORS plainTest)))
        ''users'' exampleQuery 0 ([exampleOptions], (exampleStorage, [])) =
      Some (Inr (), ([exampleOptions],
        (st', calls (Suc (Suc 0)) (0 + 2 < length [''a'', ''c'', ''d'', ''e'', ''f'']))))"
    and m: "matching (OPERATORS plainTest) ''users'' exampleQuery st' =
      take 0 [''a'', ''c'', ''d'', ''e'', ''f''] @
      drop (0 + Suc (Suc 0)) [''a'', ''c'', ''d'', ''e'', ''f'']"
    and i: "indexOf st' ''users'' =
      filter (\<lambda>i. i \<notin> set (take (Suc (Suc 0)) (drop 0 [''a'', ''c'', ''d'', ''e'', ''f''])))
        (indexOf exampleStorage ''users'')"
    by blast
  from run have "deleteMany (logged foundEntry (wsFindOne (OPERATORS plainTest)))
        (logged deletedEntry (wsDeleteOne (OPERATORS plainTest)))
        ''users'' exampleQuery 0 ([exampleOptions], (exampleStorage, [])) =
      Some (Inr (), ([exampleOptions],
              (st', [FindOneCall True, DeleteOneCall, FindOneCall True, DeleteOneCall,
                     FindOneCall True])))"
    by (simp add: calls_def)
  moreover from m have "matching (OPERATORS plainTest) ''users'' exampleQuery st' = [''d'', ''e'', ''f'']"
    by simp
  moreover from i have "indexOf st' ''users'' = [''b'', ''d'', ''e'', ''f'']"
    by (simp add: idx)
  ultimately show ?thesis by blast
qed

text \<open>
  The claim as written fails for options that skip: with \<open>limit = 2\<close> and \<open>skip = 4\<close>
  over five matching items, \<open>findOne\<close> finds the fifth match, \<open>deleteOne\<close> deletes it
  and the next \<open>findOne\<close> finds nothing. One item is deleted, not two.
\<close>

theorem deleteMany_skip_counterexample:
  "length (matching (OPERATORS plainTest) ''users'' exampleQuery exampleStorage) = 5 \<and>
   (\<exists>st'. deleteMany (logged foundEntry (wsFindOne (OPERATORS plainTest)))
           (logged deletedEntry (wsDeleteOne (OPERATORS plainTest)))
           ''users'' exampleQuery 0 ([skippingOptions], (exampleStorage, [])) =
         Some (Inr (), ([skippingOptions],
                 (st', [FindOneCall True, DeleteOneCall, FindOneCall False]))) \<and>
         indexOf st' ''users'' = [''a'', ''b'', ''c'', ''d'', ''e''] \<and>
         length (matching (OPERATORS plainTest) ''users'' exampleQuery st') = 4)"
  unfolding deleteMany_def
  apply (subst loopFind.simps)
  apply (simp add: logged_def deletedEntry_def wsFindOne_def wsDeleteOne_def
      optionOf_def Let_def skippingOptions_def exampleQuery_def exampleStorage_def
      searchesById_def ensureCollectionExists_def getItemName_def matchEntity_def
      matchField_def matchOperation_def OPERATORS_def compareNum_def numberGreater_def
      indexOf_def matching_def matchesItem_def)
  apply (subst loopFind.simps)
  apply (simp add: logged_def deletedEntry_def wsFindOne_def wsDeleteOne_def
      optionOf_def Let_def skippingOptions_def exampleQuery_def exampleStorage_def
      searchesById_def ensureCollectionExists_def getItemName_def matchEntity_def
      matchField_def matchOperation_def OPERATORS_def compareNum_def numberGreater_def
      indexOf_def matching_def matchesItem_def)
  done

text \<open>
  The same loop over the default \<open>findOne\<close>, which assigns \<open>limit = 1\<close> on the shared
  options: with \<open>limit = 2\<close> a single item is deleted.
\<close>

lemma deleteMany_over_default_findOne:
  "\<exists>st'. deleteMany
           (findOne (\<lambda>table queryFind options w.
              case wsFindOne (OPERATORS plainTest) table queryFind options w of
                (Inl e, w') \<Rightarrow> (Inl e, w')
              | (Inr None, w') \<Rightarrow> (Inr [], w')
              | (Inr (Some entity), w') \<Rightarrow> (Inr [entity], w')))
           (wsDeleteOne (OPERATORS plainTest)) ''users'' exampleQuery 0
           ([exampleOptions], exampleStorage) =
         Some (Inr (), ([put exampleOptions ''limit'' (JNum 1)], st')) \<and>
         indexOf st' ''users'' = [''b'', ''c'', ''d'', ''e'', ''f'']"
  unfolding deleteMany_def
  apply (subst loopFind.simps)
  apply (simp add: findOne_def wsFindOne_def wsDeleteOne_def assign_def optionOf_def Let_def
      exampleOptions_def exampleQuery_def exampleStorage_def searchesById_def
      ensureCollectionExists_def getItemName_def matchEntity_def matchField_def
      matchOperation_def OPERATORS_def compareNum_def numberGreater_def indexOf_def)
  apply (subst loopFind.simps)
  apply (simp add: findOne_def wsFindOne_def wsDeleteOne_def assign_def optionOf_def Let_def
      exampleOptions_def exampleQuery_def exampleStorage_def searchesById_def
      ensureCollectionExists_def getItemName_def matchEntity_def matchField_def
      matchOperation_def OPERATORS_def compareNum_def numberGreater_def indexOf_def)
  done

end
